theory Spec2Isabelle
  imports Main
begin

section \<open>Platform: strings, errors, storage, network\<close>

text \<open>
  The repository holds three generations of one userscript: version 2.2 (the Berry Browser
  fix), version 3.0 (jsDelivr optimised) and version 4.0 (multi-CDN edition). Each is
  embedded below from its own source text; names shared by several generations carry the
  suffix \<open>_v2\<close>, \<open>_v3\<close> or \<open>_v4\<close>.

  A JavaScript string is modelled as a list of code units below 256. \<open>trim\<close> strips the
  white space and line terminators of that range from both ends.
\<close>

definition is_space :: "char \<Rightarrow> bool" where
  "is_space c \<longleftrightarrow> c \<in> set [CHR 0x09, CHR 0x0A, CHR 0x0B, CHR 0x0C, CHR 0x0D, CHR 0x20, CHR 0xA0]"

definition trim :: "string \<Rightarrow> string" where
  "trim s = rev (dropWhile is_space (rev (dropWhile is_space s)))"

text \<open>\<open>Array.prototype.indexOf\<close>: the first position of the value, or \<open>-1\<close>.\<close>

fun indexOf :: "'a list \<Rightarrow> 'a \<Rightarrow> int" where
  "indexOf [] x = -1"
| "indexOf (y # ys) x =
     (if y = x then 0 else (let i = indexOf ys x in if i < 0 then -1 else i + 1))"

text \<open>Truthiness of a value that is \<open>null\<close> or a string: only a non-empty string is truthy.\<close>

fun truthy :: "string option \<Rightarrow> bool" where
  "truthy None = False"
| "truthy (Some s) = (s \<noteq> [])"

text \<open>Everything the scripts throw or have thrown at them.\<close>

datatype js_error =
    SecurityError
  | QuotaExceededError
  | SyntaxError
  | TypeError
  | NetworkError
  | AbortError
  | Timeout
  | HttpError nat
  | EmptyResponse
  | InvalidCSS
  | FetchExhausted
  | EmptyContent
  | InjectionFailed

text \<open>
  Values that travel through \<open>JSON.stringify\<close> and \<open>JSON.parse\<close>: the default \<open>null\<close>, the
  enabled flag, and the cache record of the generation at hand (type \<open>'e\<close>). A stored text
  is either the serialisation of such a value or text that \<open>JSON.parse\<close> rejects; that
  \<open>JSON.parse\<close> inverts \<open>JSON.stringify\<close> is a property of the platform and is built into
  this representation.
\<close>

datatype 'e jsval = JNull | JBool bool | JObj 'e

datatype 'e stored = Stringified "'e jsval" | Garbage string

definition JSON_parse :: "'e stored \<Rightarrow> js_error + 'e jsval" where
  "JSON_parse t = (case t of Stringified v \<Rightarrow> Inr v | Garbage s \<Rightarrow> Inl SyntaxError)"

text \<open>
  \<open>localStorage\<close>: a map from keys to texts. \<open>denied\<close> makes every access throw (storage
  blocked by the browser), \<open>full\<close> makes every write throw (quota exceeded).
\<close>

record 'e localStorage =
  items :: "string \<rightharpoonup> 'e stored"
  denied :: bool
  full :: bool

definition getItem :: "'e localStorage \<Rightarrow> string \<Rightarrow> js_error + 'e stored option" where
  "getItem ls k = (if denied ls then Inl SecurityError else Inr (items ls k))"

definition setItem :: "'e localStorage \<Rightarrow> string \<Rightarrow> 'e stored \<Rightarrow> js_error + 'e localStorage" where
  "setItem ls k t =
     (if denied ls then Inl SecurityError
      else if full ls then Inl QuotaExceededError
      else Inr (ls\<lparr>items := (items ls)(k \<mapsto> t)\<rparr>))"

definition removeItem :: "'e localStorage \<Rightarrow> string \<Rightarrow> js_error + 'e localStorage" where
  "removeItem ls k =
     (if denied ls then Inl SecurityError
      else Inr (ls\<lparr>items := (items ls)(k := None)\<rparr>))"

text \<open>
  What the network answers to one request: the request is rejected (network failure, CORS
  block), it runs into its timeout, or a response with a status and a body arrives.
\<close>

datatype response = Rejected | TimedOut | Http nat string

definition ok :: "nat \<Rightarrow> bool" where
  "ok status \<longleftrightarrow> 200 \<le> status \<and> status < 300"

text \<open>
  The address of a request: a URL fetched as it is, or the same URL handed to one of the
  CORS proxies the scripts know (\<open>corsproxy.io\<close>, \<open>api.codetabs.com\<close>,
  \<open>api.allorigins.win\<close>).
\<close>

datatype target = Plain string | CorsProxy string | CodeTabs string | AllOrigins string

section \<open>Platform: the document\<close>

text \<open>
  Only the elements the scripts create or look for are kept: style and link elements with
  their id, attributes, \<open>href\<close> and text. The document lists the children of \<open>head\<close>, of
  \<open>body\<close> (each may not exist yet) and the elements appended to the root element after
  them, in tree order. Object URLs are plain \<open>href\<close> strings; their release is not
  modelled.
\<close>

datatype tag = STYLE | LINK

record element =
  tagName :: tag
  elem_id :: string
  attributes :: "(string \<times> string) list"
  href :: string
  textContent :: string

record document =
  head :: "element list option"
  body :: "element list option"
  root :: "element list"

definition children :: "element list option \<Rightarrow> element list" where
  "children p = (case p of None \<Rightarrow> [] | Some es \<Rightarrow> es)"

definition nodes :: "document \<Rightarrow> element list" where
  "nodes d = children (head d) @ children (body d) @ root d"

definition getElementById :: "document \<Rightarrow> string \<Rightarrow> element option" where
  "getElementById d i = find (\<lambda>e. elem_id e = i) (nodes d)"

definition getAttribute :: "element \<Rightarrow> string \<Rightarrow> string option" where
  "getAttribute e a = map_of (attributes e) a"

text \<open>\<open>el.remove()\<close> for every element that satisfies \<open>P\<close>.\<close>

definition remove_where :: "(element \<Rightarrow> bool) \<Rightarrow> document \<Rightarrow> document" where
  "remove_where P d =
     d\<lparr>head := map_option (filter (\<lambda>e. \<not> P e)) (head d),
       body := map_option (filter (\<lambda>e. \<not> P e)) (body d),
       root := filter (\<lambda>e. \<not> P e) (root d)\<rparr>"

text \<open>\<open>el.remove()\<close> for the one element \<open>getElementById\<close> returns: the first in tree order.\<close>

definition remove_first :: "string \<Rightarrow> document \<Rightarrow> document" where
  "remove_first i d =
     (case find (\<lambda>e. elem_id e = i) (children (head d)) of
        Some e \<Rightarrow> d\<lparr>head := map_option (remove1 e) (head d)\<rparr>
      | None \<Rightarrow>
          (case find (\<lambda>e. elem_id e = i) (children (body d)) of
             Some e \<Rightarrow> d\<lparr>body := map_option (remove1 e) (body d)\<rparr>
           | None \<Rightarrow>
               (case find (\<lambda>e. elem_id e = i) (root d) of
                  Some e \<Rightarrow> d\<lparr>root := remove1 e (root d)\<rparr>
                | None \<Rightarrow> d)))"

text \<open>\<open>parent.appendChild(el)\<close> on \<open>head\<close>, \<open>body\<close> and the root element.\<close>

definition append_head :: "element \<Rightarrow> document \<Rightarrow> document" where
  "append_head e d = d\<lparr>head := map_option (\<lambda>es. es @ [e]) (head d)\<rparr>"


definition append_root :: "element \<Rightarrow> document \<Rightarrow> document" where
  "append_root e d = d\<lparr>root := root d @ [e]\<rparr>"

section \<open>Version 2.2 (Berry Browser fix)\<close>

definition CACHE_DURATION_v2 :: int where
  "CACHE_DURATION_v2 = 12 * 60 * 60 * 1000"

record site_v2 =
  name_v2 :: string
  styleURL_v2 :: string
  backupStyleURL :: string
  styleID_v2 :: string
  berryInjectionPoint :: string
  requiresFullReady :: bool
  berryFallbackCSS :: "string option"

record entry_v2 =
  css_v2 :: string
  timestamp_v2 :: int
  url_v2 :: string

text \<open>
  The two top-level variables \<open>styleElement\<close> and \<open>isBerryBrowser\<close>, the host name the
  script runs on, and the browser's storage and document. A node is known by its fields
  only: elements that agree on every field are not told apart.
\<close>

record world_v2 =
  styleElement_v2 :: "element option"
  isBerryBrowser_v2 :: bool
  currentDomain_v2 :: string
  storage_v2 :: "entry_v2 localStorage"
  page_v2 :: document

text \<open>
  \<open>utils.getCachedCSS\<close> read at time \<open>now\<close>. \<open>None\<close> stands for \<open>null\<close> and for the
  \<open>undefined\<close> that \<open>data.css\<close> yields on a value without that field. An expired entry is
  also removed from the storage.
\<close>

definition getCachedCSS_v2 :: "site_v2 \<Rightarrow> int \<Rightarrow> world_v2 \<Rightarrow> string option \<times> world_v2" where
  "getCachedCSS_v2 site now w =
     (let key = ''css_cache_'' @ name_v2 site in
      case getItem (storage_v2 w) key of
        Inl e \<Rightarrow> (None, w)
      | Inr None \<Rightarrow> (None, w)
      | Inr (Some cached) \<Rightarrow>
          if cached = Garbage [] then (None, w)
          else
            (case JSON_parse cached of
               Inl e \<Rightarrow> (None, w)
             | Inr JNull \<Rightarrow> (None, w)
             | Inr (JBool b) \<Rightarrow> (None, w)
             | Inr (JObj data) \<Rightarrow>
                 if now - timestamp_v2 data > CACHE_DURATION_v2 then
                   (case removeItem (storage_v2 w) key of
                      Inl e \<Rightarrow> (None, w)
                    | Inr ls \<Rightarrow> (None, w\<lparr>storage_v2 := ls\<rparr>))
                 else (Some (css_v2 data), w)))"

definition setCachedCSS_v2 :: "site_v2 \<Rightarrow> int \<Rightarrow> string \<Rightarrow> world_v2 \<Rightarrow> bool \<times> world_v2" where
  "setCachedCSS_v2 site now css w =
     (case setItem (storage_v2 w) (''css_cache_'' @ name_v2 site)
             (Stringified (JObj \<lparr>css_v2 = css, timestamp_v2 = now, url_v2 = styleURL_v2 site\<rparr>)) of
        Inl e \<Rightarrow> (False, w)
      | Inr ls \<Rightarrow> (True, w\<lparr>storage_v2 := ls\<rparr>))"










section \<open>Version 3.0 (jsDelivr optimised): storage and cache\<close>

definition CACHE_DURATION_v3 :: int where
  "CACHE_DURATION_v3 = 12 * 60 * 60 * 1000"

definition CACHE_KEY_PREFIX_v3 :: string where
  "CACHE_KEY_PREFIX_v3 = ''css_cache_v3_''"

text \<open>
  The fields of a site entry that the cache, the fetchers and the style manager read. A
  missing \<open>fallbackURL\<close> is \<open>None\<close>.
\<close>

record site_v3 =
  name_v3 :: string
  styleURL_v3 :: string
  fallbackURL :: "string option"
  styleID_v3 :: string
  enabledKey_v3 :: string
  version_v3 :: string

record entry_v3 =
  css_v3 :: string
  timestamp_v3 :: int
  url_v3 :: string
  version_e :: string
  size_e :: nat

text \<open>
  The fields of \<open>state\<close> that the modelled functions touch, the host name, and the browser:
  the userscript manager's value store (\<open>None\<close> where \<open>GM_getValue\<close> and \<open>GM_setValue\<close> are
  not defined), \<open>localStorage\<close> and the document. The diagnostic entries that \<open>utils.log\<close>
  writes under keys of their own in Berry Browser are read by none of the modelled
  functions and are left out, like all logging.
\<close>

record world_v3 =
  styleElement_v3 :: "element option"
  isLoading :: bool
  hasGrants :: bool
  isBerryBrowser_v3 :: bool
  cssContent_v3 :: "string option"
  appliedMethod :: "string option"
  lastApplyTime :: int
  cdnStatus :: string
  fetchAttempts_v3 :: nat
  currentDomain_v3 :: string
  gm_store :: "(string \<rightharpoonup> entry_v3 jsval) option"
  storage_v3 :: "entry_v3 localStorage"
  page_v3 :: document

text \<open>\<open>utils.safeCall\<close>: the value of the call, or the fallback when it throws.\<close>

definition safeCall :: "js_error + 'a \<Rightarrow> 'a \<Rightarrow> 'a" where
  "safeCall fn fallback = (case fn of Inl e \<Rightarrow> fallback | Inr v \<Rightarrow> v)"

definition getValue :: "string \<Rightarrow> entry_v3 jsval \<Rightarrow> world_v3 \<Rightarrow> entry_v3 jsval" where
  "getValue key defaultValue w =
     safeCall
       (case gm_store w of
          Some gm \<Rightarrow> Inr (case gm key of None \<Rightarrow> defaultValue | Some v \<Rightarrow> v)
        | None \<Rightarrow>
            (case getItem (storage_v3 w) key of
               Inl e \<Rightarrow> Inr defaultValue
             | Inr None \<Rightarrow> Inr defaultValue
             | Inr (Some item) \<Rightarrow>
                 (case JSON_parse item of Inl e \<Rightarrow> Inr defaultValue | Inr v \<Rightarrow> Inr v)))
       defaultValue"

definition setValue :: "string \<Rightarrow> entry_v3 jsval \<Rightarrow> world_v3 \<Rightarrow> bool \<times> world_v3" where
  "setValue key val w =
     safeCall
       (case gm_store w of
          Some gm \<Rightarrow> Inr (True, w\<lparr>gm_store := Some (gm(key \<mapsto> val))\<rparr>)
        | None \<Rightarrow>
            (case setItem (storage_v3 w) key (Stringified val) of
               Inl e \<Rightarrow> Inr (False, w)
             | Inr ls \<Rightarrow> Inr (True, w\<lparr>storage_v3 := ls\<rparr>)))
       (False, w)"

definition getCurrentSiteEnabled :: "site_v3 \<Rightarrow> world_v3 \<Rightarrow> entry_v3 jsval" where
  "getCurrentSiteEnabled site w = getValue (enabledKey_v3 site) (JBool True) w"

definition setCurrentSiteEnabled :: "site_v3 \<Rightarrow> bool \<Rightarrow> world_v3 \<Rightarrow> bool \<times> world_v3" where
  "setCurrentSiteEnabled site enabled w = setValue (enabledKey_v3 site) (JBool enabled) w"

text \<open>Truthiness of a stored value.\<close>

fun truthy_val :: "'e jsval \<Rightarrow> bool" where
  "truthy_val JNull = False"
| "truthy_val (JBool b) = b"
| "truthy_val (JObj e) = True"

text \<open>
  \<open>utils.getCachedCSS\<close> read at time \<open>now\<close>. On the value \<open>true\<close> the destructured \<open>url\<close> is
  undefined and differs from the configured URL.
\<close>

definition getCachedCSS_v3 :: "site_v3 \<Rightarrow> int \<Rightarrow> world_v3 \<Rightarrow> string option" where
  "getCachedCSS_v3 site now w =
     (case getValue (CACHE_KEY_PREFIX_v3 @ name_v3 site) JNull w of
        JNull \<Rightarrow> None
      | JBool b \<Rightarrow> None
      | JObj cacheData \<Rightarrow>
          if url_v3 cacheData \<noteq> styleURL_v3 site then None
          else if now - timestamp_v3 cacheData > CACHE_DURATION_v3 then None
          else if version_e cacheData \<noteq> version_v3 site then None
          else Some (css_v3 cacheData))"

definition setCachedCSS_v3 :: "site_v3 \<Rightarrow> int \<Rightarrow> string \<Rightarrow> world_v3 \<Rightarrow> bool \<times> world_v3" where
  "setCachedCSS_v3 site now css w =
     setValue (CACHE_KEY_PREFIX_v3 @ name_v3 site)
       (JObj \<lparr>css_v3 = css, timestamp_v3 = now, url_v3 = styleURL_v3 site,
              version_e = version_v3 site, size_e = length css\<rparr>) w"

section \<open>Version 3.0: the loader\<close>

text \<open>
  The requests of one \<open>fetchExternalCSS\<close> call, named by the place that issues them; the
  network answers each of them on its own.
\<close>

datatype request =
    ViaGM string
  | BerryStrategy nat string
  | BerryGitHub string
  | DirectFetch string
  | GitHubFetch string
  | PrimaryProxy nat target
  | FallbackProxy nat target

type_synonym network_v3 = "request \<Rightarrow> response"

text \<open>\<open>cssLoader.fetchViaGM\<close>: what the promise settles to.\<close>

definition fetchViaGM :: "site_v3 \<Rightarrow> network_v3 \<Rightarrow> js_error + string" where
  "fetchViaGM site net =
     (case net (ViaGM (styleURL_v3 site)) of
        Rejected \<Rightarrow> Inl NetworkError
      | TimedOut \<Rightarrow> Inl Timeout
      | Http status css \<Rightarrow>
          if ok status then
            (if css \<noteq> [] \<and> length (trim css) > 0 then Inr css else Inl EmptyResponse)
          else Inl (HttpError status))"

text \<open>\<open>cssLoader.fetchDirect\<close>; the request carries no timeout of its own.\<close>

definition fetchDirect :: "site_v3 \<Rightarrow> network_v3 \<Rightarrow> js_error + string" where
  "fetchDirect site net =
     (case net (DirectFetch (styleURL_v3 site)) of
        Http status css \<Rightarrow>
          if \<not> ok status then Inl (HttpError status)
          else if css = [] \<or> length (trim css) = 0 then Inl EmptyResponse
          else Inr css
      | _ \<Rightarrow> Inl NetworkError)"

text \<open>
  The strategy loop of \<open>cssLoader.fetchForBerryBrowser\<close> from strategy \<open>i\<close> on, \<open>n\<close> strategies
  left. The status is not looked at; a trimmed body longer than 10 is taken.
\<close>

fun berry_strategies :: "site_v3 \<Rightarrow> network_v3 \<Rightarrow> nat \<Rightarrow> nat \<Rightarrow> string option" where
  "berry_strategies site net i 0 = None"
| "berry_strategies site net i (Suc n) =
     (case net (BerryStrategy i (styleURL_v3 site)) of
        Http status css \<Rightarrow>
          if css \<noteq> [] \<and> length (trim css) > 10 then Some css
          else berry_strategies site net (i + 1) n
      | _ \<Rightarrow> berry_strategies site net (i + 1) n)"

definition fetchForBerryBrowser ::
  "site_v3 \<Rightarrow> network_v3 \<Rightarrow> world_v3 \<Rightarrow> (js_error + string) \<times> world_v3" where
  "fetchForBerryBrowser site net w =
     (let w1 = w\<lparr>cdnStatus := ''berry_optimized''\<rparr> in
      case berry_strategies site net 0 4 of
        Some css \<Rightarrow> (Inr css, w1)
      | None \<Rightarrow>
          if truthy (fallbackURL site) then
            (case net (BerryGitHub (the (fallbackURL site))) of
               Http status css \<Rightarrow>
                 if css \<noteq> [] \<and> length (trim css) > 10
                 then (Inr css, w1\<lparr>cdnStatus := ''github_fallback_berry''\<rparr>)
                 else (Inl FetchExhausted, w1)
             | _ \<Rightarrow> (Inl FetchExhausted, w1))
          else (Inl FetchExhausted, w1))"

definition fetchGitHubFallback :: "site_v3 \<Rightarrow> network_v3 \<Rightarrow> js_error + string" where
  "fetchGitHubFallback site net =
     (if \<not> truthy (fallbackURL site) then Inl FetchExhausted
      else
        (case net (GitHubFetch (the (fallbackURL site))) of
           Http status css \<Rightarrow>
             if \<not> ok status then Inl (HttpError status)
             else if css = [] \<or> length (trim css) = 0 then Inl EmptyResponse
             else Inr css
         | _ \<Rightarrow> Inl NetworkError))"

text \<open>
  The two loops of \<open>cssLoader.fetchViaCORSProxy\<close>. In the first every error is caught and
  the loop goes on. In the second the error of the last proxy is thrown on; \<open>Inl\<close> is that
  error, \<open>Inr None\<close> is a loop that ends without a body.
\<close>

fun primary_proxies :: "network_v3 \<Rightarrow> nat \<Rightarrow> target list \<Rightarrow> string option" where
  "primary_proxies net i [] = None"
| "primary_proxies net i (proxyUrl # rest) =
     (case net (PrimaryProxy i proxyUrl) of
        Http status css \<Rightarrow>
          if \<not> ok status then primary_proxies net (i + 1) rest
          else if css \<noteq> [] \<and> length (trim css) > 0 then Some css
          else primary_proxies net (i + 1) rest
      | _ \<Rightarrow> primary_proxies net (i + 1) rest)"

fun fallback_proxies :: "network_v3 \<Rightarrow> nat \<Rightarrow> target list \<Rightarrow> js_error + string option" where
  "fallback_proxies net i [] = Inr None"
| "fallback_proxies net i (proxyUrl # rest) =
     (case net (FallbackProxy i proxyUrl) of
        Http status css \<Rightarrow>
          if \<not> ok status then
            (if rest = [] then Inl (HttpError status) else fallback_proxies net (i + 1) rest)
          else if css \<noteq> [] \<and> length (trim css) > 0 then Inr (Some css)
          else fallback_proxies net (i + 1) rest
      | Rejected \<Rightarrow> (if rest = [] then Inl NetworkError else fallback_proxies net (i + 1) rest)
      | TimedOut \<Rightarrow> (if rest = [] then Inl AbortError else fallback_proxies net (i + 1) rest))"

definition fetchViaCORSProxy :: "site_v3 \<Rightarrow> network_v3 \<Rightarrow> js_error + string" where
  "fetchViaCORSProxy site net =
     (case primary_proxies net 0
             [CorsProxy (styleURL_v3 site), CodeTabs (styleURL_v3 site),
              AllOrigins (styleURL_v3 site), Plain (styleURL_v3 site)] of
        Some css \<Rightarrow> Inr css
      | None \<Rightarrow>
          if truthy (fallbackURL site) then
            (case fallback_proxies net 0
                    [CorsProxy (the (fallbackURL site)), CodeTabs (the (fallbackURL site)),
                     AllOrigins (the (fallbackURL site))] of
               Inl e \<Rightarrow> Inl e
             | Inr (Some css) \<Rightarrow> Inr css
             | Inr None \<Rightarrow> Inl FetchExhausted)
          else Inl FetchExhausted)"

text \<open>
  What every successful branch of \<open>fetchExternalCSS\<close> does with the body it got, at time
  \<open>later\<close>; \<open>status\<close> is the new \<open>cdnStatus\<close> where the branch sets one.
\<close>

definition keep_css :: "site_v3 \<Rightarrow> int \<Rightarrow> string \<Rightarrow> string option \<Rightarrow> world_v3 \<Rightarrow> world_v3" where
  "keep_css site later css status w =
     (let w1 = (snd (setCachedCSS_v3 site later css w))\<lparr>cssContent_v3 := Some css\<rparr>
      in case status of None \<Rightarrow> w1 | Some s \<Rightarrow> w1\<lparr>cdnStatus := s\<rparr>)"

text \<open>
  \<open>cssLoader.fetchExternalCSS\<close>: cache, then the privileged request, then the Berry
  Browser path, then the direct request with the GitHub URL and the proxies behind it.
  \<open>Inl FetchExhausted\<close> is the \<open>Error('Could not fetch CSS from any source')\<close> it throws.
\<close>

definition fetch_standard ::
  "site_v3 \<Rightarrow> network_v3 \<Rightarrow> int \<Rightarrow> world_v3 \<Rightarrow> (js_error + string) \<times> world_v3" where
  "fetch_standard site net later w =
     (case fetchDirect site net of
        Inr css \<Rightarrow> (Inr css, keep_css site later css (Some ''jsdelivr_direct'') w)
      | Inl directError \<Rightarrow>
          (case (if truthy (fallbackURL site) then fetchGitHubFallback site net
                 else Inl FetchExhausted) of
             Inr css \<Rightarrow> (Inr css, keep_css site later css (Some ''github_fallback'') w)
           | Inl githubError \<Rightarrow>
               (case fetchViaCORSProxy site net of
                  Inr css \<Rightarrow> (Inr css, keep_css site later css (Some ''cors_proxy'') w)
                | Inl proxyError \<Rightarrow> (Inl FetchExhausted, w))))"

definition fetch_berry ::
  "site_v3 \<Rightarrow> network_v3 \<Rightarrow> int \<Rightarrow> world_v3 \<Rightarrow> (js_error + string) \<times> world_v3" where
  "fetch_berry site net later w =
     (if isBerryBrowser_v3 w then
        (case fetchForBerryBrowser site net w of
           (Inr css, w1) \<Rightarrow> (Inr css, keep_css site later css None w1)
         | (Inl berryError, w1) \<Rightarrow> fetch_standard site net later w1)
      else fetch_standard site net later w)"

definition fetchExternalCSS ::
  "site_v3 \<Rightarrow> network_v3 \<Rightarrow> int \<Rightarrow> int \<Rightarrow> world_v3 \<Rightarrow> (js_error + string) \<times> world_v3" where
  "fetchExternalCSS site net now later w0 =
     (let w = w0\<lparr>fetchAttempts_v3 := fetchAttempts_v3 w0 + 1\<rparr>;
          cachedCSS = getCachedCSS_v3 site now w
      in if truthy cachedCSS then (Inr (the cachedCSS), w\<lparr>cssContent_v3 := cachedCSS\<rparr>)
         else if hasGrants w then
           (case fetchViaGM site net of
              Inr css \<Rightarrow> (Inr css, keep_css site later css (Some ''jsdelivr_via_gm'') w)
            | Inl error \<Rightarrow> fetch_berry site net later w)
         else fetch_berry site net later w)"

section \<open>Version 3.0: the style manager\<close>

text \<open>
  \<open>styleManager.remove\<close>: the element found by id, then every element with a
  \<open>data-method\<close> attribute that carries the id or the host name.
\<close>

definition remove_v3 :: "site_v3 \<Rightarrow> world_v3 \<Rightarrow> world_v3" where
  "remove_v3 site w =
     (let d1 = remove_first (styleID_v3 site) (page_v3 w);
          d2 = remove_where (\<lambda>el. getAttribute el ''data-method'' \<noteq> None \<and>
                                   (elem_id el = styleID_v3 site \<or>
                                    getAttribute el ''data-site'' = Some (currentDomain_v3 w))) d1
      in w\<lparr>page_v3 := d2, styleElement_v3 := None\<rparr>)"

definition isApplied_v3 :: "site_v3 \<Rightarrow> world_v3 \<Rightarrow> bool" where
  "isApplied_v3 site w \<longleftrightarrow> getElementById (page_v3 w) (styleID_v3 site) \<noteq> None"

text \<open>
  What happens to a stylesheet link after it is appended: its \<open>load\<close> event comes first,
  its \<open>error\<close> event comes first, or the timer of the injection method fires first, with
  \<open>link.sheet\<close> set or not by then. \<open>page_events\<close> gives the fate of the Blob link and of
  the external link, and the object URL the browser hands out.
\<close>

datatype load_event = Loaded | Errored | Expired bool

record page_events =
  blob_event :: load_event
  external_event :: load_event
  object_url :: string

definition injectViaBlob :: "site_v3 \<Rightarrow> page_events \<Rightarrow> world_v3 \<Rightarrow> bool \<times> world_v3" where
  "injectViaBlob site ev w =
     (if head (page_v3 w) = None then (False, w)
      else
        (let link = \<lparr>tagName = LINK, elem_id = styleID_v3 site,
                      attributes = [(''rel'', ''stylesheet''), (''type'', ''text/css''),
                                    (''data-method'', ''blob''), (''data-cdn'', cdnStatus w)],
                      href = ''blob:'' @ object_url ev, textContent = []\<rparr>;
             w1 = w\<lparr>page_v3 := append_head link (page_v3 w)\<rparr>
         in case blob_event ev of
              Loaded \<Rightarrow> (True, w1\<lparr>styleElement_v3 := Some link\<rparr>)
            | Errored \<Rightarrow> (False, w)
            | Expired sheet \<Rightarrow>
                if sheet then (True, w1\<lparr>styleElement_v3 := Some link\<rparr>) else (False, w1)))"

definition injectViaStyle :: "site_v3 \<Rightarrow> world_v3 \<Rightarrow> bool \<times> world_v3" where
  "injectViaStyle site w =
     (if head (page_v3 w) = None then (False, w)
      else
        (let style = \<lparr>tagName = STYLE, elem_id = styleID_v3 site,
                       attributes = [(''type'', ''text/css''), (''data-method'', ''inline''),
                                     (''data-cdn'', cdnStatus w)],
                       href = [],
                       textContent = (case cssContent_v3 w of None \<Rightarrow> [] | Some css \<Rightarrow> css)\<rparr>
         in (True, w\<lparr>page_v3 := append_head style (page_v3 w), styleElement_v3 := Some style\<rparr>)))"

definition injectViaExternalLink :: "site_v3 \<Rightarrow> page_events \<Rightarrow> world_v3 \<Rightarrow> bool \<times> world_v3" where
  "injectViaExternalLink site ev w =
     (if head (page_v3 w) = None then (False, w)
      else
        (let link = \<lparr>tagName = LINK, elem_id = styleID_v3 site,
                      attributes = [(''rel'', ''stylesheet''), (''type'', ''text/css''),
                                    (''data-method'', ''external''),
                                    (''data-cdn'', ''jsdelivr_direct''),
                                    (''crossorigin'', ''anonymous'')],
                      href = styleURL_v3 site, textContent = []\<rparr>;
             w1 = w\<lparr>page_v3 := append_head link (page_v3 w)\<rparr>
         in case external_event ev of
              Loaded \<Rightarrow> (True, w1\<lparr>styleElement_v3 := Some link\<rparr>)
            | Errored \<Rightarrow> (False, w)
            | Expired sheet \<Rightarrow> (False, w1)))"

text \<open>
  The content of the \<open>try\<close> in \<open>styleManager.apply\<close>: fetch if nothing is loaded yet, then
  the three injection methods in their order. \<open>apply_v3\<close> puts the guards, the throttle
  and the \<open>catch\<close> around it; the call happens at time \<open>now\<close>.
\<close>

definition inject_methods :: "site_v3 \<Rightarrow> page_events \<Rightarrow> world_v3 \<Rightarrow> (js_error + bool) \<times> world_v3" where
  "inject_methods site ev w =
     (case injectViaBlob site ev w of
        (True, w1) \<Rightarrow> (Inr True, w1\<lparr>appliedMethod := Some ''blob-link'', isLoading := False\<rparr>)
      | (False, w1) \<Rightarrow>
          (case injectViaStyle site w1 of
             (True, w2) \<Rightarrow>
               (Inr True, w2\<lparr>appliedMethod := Some ''style-element'', isLoading := False\<rparr>)
           | (False, w2) \<Rightarrow>
               (case injectViaExternalLink site ev w2 of
                  (True, w3) \<Rightarrow>
                    (Inr True, w3\<lparr>appliedMethod := Some ''external-link'', isLoading := False\<rparr>)
                | (False, w3) \<Rightarrow> (Inl InjectionFailed, w3))))"

definition apply_body_v3 ::
  "site_v3 \<Rightarrow> network_v3 \<Rightarrow> page_events \<Rightarrow> int \<Rightarrow> int \<Rightarrow> world_v3
     \<Rightarrow> (js_error + bool) \<times> world_v3" where
  "apply_body_v3 site net ev now later w =
     (case (if \<not> truthy (cssContent_v3 w) then fetchExternalCSS site net now later w
            else (Inr [], w)) of
        (Inl e, w1) \<Rightarrow> (Inl e, w1)
      | (Inr css, w1) \<Rightarrow>
          if \<not> truthy (cssContent_v3 w1) \<or> length (trim (the (cssContent_v3 w1))) = 0
          then (Inl EmptyContent, w1)
          else inject_methods site ev w1)"

definition apply_v3 ::
  "site_v3 \<Rightarrow> network_v3 \<Rightarrow> page_events \<Rightarrow> int \<Rightarrow> int \<Rightarrow> world_v3 \<Rightarrow> bool \<times> world_v3" where
  "apply_v3 site net ev now later w =
     (if \<not> truthy_val (getCurrentSiteEnabled site w) \<or> isLoading w then (False, w)
      else if now - lastApplyTime w < 500 then (False, w)
      else
        (case apply_body_v3 site net ev now later
                ((remove_v3 site (w\<lparr>lastApplyTime := now\<rparr>))\<lparr>isLoading := True\<rparr>) of
           (Inl error, w1) \<Rightarrow> (False, w1\<lparr>isLoading := False\<rparr>)
         | (Inr b, w1) \<Rightarrow> (b, w1)))"

section \<open>Version 3.0: the style manager, event by event\<close>

text \<open>
  \<open>styleManager.apply\<close> is asynchronous. It runs until it returns or until it awaits
  something the browser has to deliver: the page being ready, the answer to a request,
  the fate of a stylesheet link. While it waits, other code of the script runs, and the
  call is resumed when the awaited event arrives. A \<open>stage\<close> names the place at which the
  call is suspended: the wait of \<open>utils.waitForPageReady\<close>, the request of one of the
  fetchers of \<open>cssLoader.fetchExternalCSS\<close> (the two proxy loops with the index and the URL
  of the awaited request and the URLs still to come), or the link an injection method has
  appended. A response and its body arrive together. An \<open>await\<close> on a value that is
  already there is not a stage: the call runs on.
\<close>

datatype stage =
    ForPage
  | ForGM
  | ForBerry nat
  | ForBerryGitHub
  | ForDirect
  | ForGitHub
  | ForPrimary nat target "target list"
  | ForFallback nat target "target list"
  | ForBlob element
  | ForExternal element

datatype progress = Finished bool | Suspended stage

text \<open>
  The events: the page is ready at a time, a request is answered at a time, a link fires
  \<open>load\<close> or \<open>error\<close> or the timer of its injection method expires.
\<close>

datatype signal = PageReady int | Answer int response | LinkEvent load_event

text \<open>
  The two tests the fetchers apply to an answer. Every fetcher but the Berry Browser one
  wants \<open>response.ok\<close> (a status from 200 to 299 for \<open>GM_xmlhttpRequest\<close>) and a body that
  is not blank; \<open>fetchForBerryBrowser\<close> does not look at the status and wants a trimmed
  body longer than 10.
\<close>

definition checked_body :: "response \<Rightarrow> string option" where
  "checked_body r =
     (case r of
        Http status css \<Rightarrow>
          if ok status \<and> css \<noteq> [] \<and> length (trim css) > 0 then Some css else None
      | _ \<Rightarrow> None)"

definition unchecked_body :: "response \<Rightarrow> string option" where
  "unchecked_body r =
     (case r of
        Http status css \<Rightarrow> if css \<noteq> [] \<and> length (trim css) > 10 then Some css else None
      | _ \<Rightarrow> None)"

text \<open>
  \<open>link.remove()\<close> in the \<open>error\<close> handler of a link this call has appended to \<open>head\<close>.
  Elements carry no identity here: the link is the last child of \<open>head\<close> equal to it.
\<close>

definition detach :: "element \<Rightarrow> document \<Rightarrow> document" where
  "detach e d = d\<lparr>head := map_option (\<lambda>es. rev (remove1 e (rev es))) (head d)\<rparr>"

text \<open>
  The two ways \<open>apply\<close> returns once it has set \<open>state.isLoading\<close>: from its \<open>catch\<close>, and
  from the loop over the injection methods. Both clear the flag.
\<close>

definition failed :: "world_v3 \<Rightarrow> progress \<times> world_v3" where
  "failed w = (Finished False, w\<lparr>isLoading := False\<rparr>)"

definition applied :: "string \<Rightarrow> world_v3 \<Rightarrow> progress \<times> world_v3" where
  "applied name w = (Finished True, w\<lparr>appliedMethod := Some name, isLoading := False\<rparr>)"

text \<open>
  The loop over the injection methods, from the third method, from the second and from
  the first. A method that appends a link suspends the call on it; \<open>blobUrl\<close> is the object
  URL the browser hands out. After the last method the loop throws into the \<open>catch\<close>.
\<close>

definition try_external :: "site_v3 \<Rightarrow> world_v3 \<Rightarrow> progress \<times> world_v3" where
  "try_external site w =
     (if head (page_v3 w) = None then failed w
      else
        (let link = \<lparr>tagName = LINK, elem_id = styleID_v3 site,
                      attributes = [(''rel'', ''stylesheet''), (''type'', ''text/css''),
                                    (''data-method'', ''external''),
                                    (''data-cdn'', ''jsdelivr_direct''),
                                    (''crossorigin'', ''anonymous'')],
                      href = styleURL_v3 site, textContent = []\<rparr>
         in (Suspended (ForExternal link), w\<lparr>page_v3 := append_head link (page_v3 w)\<rparr>)))"

definition try_style :: "site_v3 \<Rightarrow> world_v3 \<Rightarrow> progress \<times> world_v3" where
  "try_style site w =
     (case injectViaStyle site w of
        (True, w1) \<Rightarrow> applied ''style-element'' w1
      | (False, w1) \<Rightarrow> try_external site w1)"

definition try_blob :: "site_v3 \<Rightarrow> string \<Rightarrow> world_v3 \<Rightarrow> progress \<times> world_v3" where
  "try_blob site blobUrl w =
     (if head (page_v3 w) = None then try_style site w
      else
        (let link = \<lparr>tagName = LINK, elem_id = styleID_v3 site,
                      attributes = [(''rel'', ''stylesheet''), (''type'', ''text/css''),
                                    (''data-method'', ''blob''), (''data-cdn'', cdnStatus w)],
                      href = ''blob:'' @ blobUrl, textContent = []\<rparr>
         in (Suspended (ForBlob link), w\<lparr>page_v3 := append_head link (page_v3 w)\<rparr>)))"

text \<open>\<open>apply\<close> from the test of \<open>state.cssContent\<close> on, and a fetcher that got a body.\<close>

definition inject_from :: "site_v3 \<Rightarrow> string \<Rightarrow> world_v3 \<Rightarrow> progress \<times> world_v3" where
  "inject_from site blobUrl w =
     (if \<not> truthy (cssContent_v3 w) \<or> length (trim (the (cssContent_v3 w))) = 0 then failed w
      else try_blob site blobUrl w)"

definition fetched ::
  "site_v3 \<Rightarrow> string \<Rightarrow> int \<Rightarrow> string \<Rightarrow> string option \<Rightarrow> world_v3 \<Rightarrow> progress \<times> world_v3" where
  "fetched site blobUrl later css status w =
     inject_from site blobUrl (keep_css site later css status w)"

text \<open>
  \<open>fetchExternalCSS\<close> from each of its places on, up to the next request: the second proxy
  loop, the first proxy loop, the GitHub URL, the Berry Browser strategies from strategy
  \<open>i\<close> on, the Berry Browser path, and the function from its first line. When no source is
  left it throws, and the \<open>catch\<close> of \<open>apply\<close> takes over.
\<close>

fun await_fallback :: "nat \<Rightarrow> target list \<Rightarrow> world_v3 \<Rightarrow> progress \<times> world_v3" where
  "await_fallback i [] w = failed w"
| "await_fallback i (proxyUrl # rest) w = (Suspended (ForFallback i proxyUrl rest), w)"

definition enter_fallback :: "site_v3 \<Rightarrow> world_v3 \<Rightarrow> progress \<times> world_v3" where
  "enter_fallback site w =
     (if truthy (fallbackURL site) then
        await_fallback 0 [CorsProxy (the (fallbackURL site)), CodeTabs (the (fallbackURL site)),
                          AllOrigins (the (fallbackURL site))] w
      else failed w)"

fun await_primary :: "site_v3 \<Rightarrow> nat \<Rightarrow> target list \<Rightarrow> world_v3 \<Rightarrow> progress \<times> world_v3" where
  "await_primary site i [] w = enter_fallback site w"
| "await_primary site i (proxyUrl # rest) w = (Suspended (ForPrimary i proxyUrl rest), w)"

definition enter_proxies :: "site_v3 \<Rightarrow> world_v3 \<Rightarrow> progress \<times> world_v3" where
  "enter_proxies site w =
     await_primary site 0 [CorsProxy (styleURL_v3 site), CodeTabs (styleURL_v3 site),
                           AllOrigins (styleURL_v3 site), Plain (styleURL_v3 site)] w"

definition enter_github :: "site_v3 \<Rightarrow> world_v3 \<Rightarrow> progress \<times> world_v3" where
  "enter_github site w =
     (if truthy (fallbackURL site) then (Suspended ForGitHub, w) else enter_proxies site w)"

definition await_berry :: "site_v3 \<Rightarrow> nat \<Rightarrow> world_v3 \<Rightarrow> progress \<times> world_v3" where
  "await_berry site i w =
     (if i < 4 then (Suspended (ForBerry i), w)
      else if truthy (fallbackURL site) then (Suspended ForBerryGitHub, w)
      else (Suspended ForDirect, w))"

definition enter_berry :: "site_v3 \<Rightarrow> world_v3 \<Rightarrow> progress \<times> world_v3" where
  "enter_berry site w =
     (if isBerryBrowser_v3 w then await_berry site 0 (w\<lparr>cdnStatus := ''berry_optimized''\<rparr>)
      else (Suspended ForDirect, w))"

definition enter_fetch :: "site_v3 \<Rightarrow> string \<Rightarrow> int \<Rightarrow> world_v3 \<Rightarrow> progress \<times> world_v3" where
  "enter_fetch site blobUrl now w0 =
     (let w = w0\<lparr>fetchAttempts_v3 := fetchAttempts_v3 w0 + 1\<rparr>;
          cachedCSS = getCachedCSS_v3 site now w
      in if truthy cachedCSS then inject_from site blobUrl (w\<lparr>cssContent_v3 := cachedCSS\<rparr>)
         else if hasGrants w then (Suspended ForGM, w)
         else enter_berry site w)"

text \<open>
  The synchronous start of \<open>apply\<close>, called at time \<open>now\<close>: the guard on the enabled
  state and on \<open>state.isLoading\<close>, the throttle, \<open>remove\<close>, and the assignment
  \<open>state.isLoading = true\<close> before the first wait.
\<close>

definition apply_begin :: "site_v3 \<Rightarrow> int \<Rightarrow> world_v3 \<Rightarrow> progress \<times> world_v3" where
  "apply_begin site now w =
     (if \<not> truthy_val (getCurrentSiteEnabled site w) \<or> isLoading w then (Finished False, w)
      else if now - lastApplyTime w < 500 then (Finished False, w)
      else (Suspended ForPage, (remove_v3 site (w\<lparr>lastApplyTime := now\<rparr>))\<lparr>isLoading := True\<rparr>))"

text \<open>The suspended call is resumed by the event it awaits; any other event is not for it.\<close>

fun apply_resume ::
  "site_v3 \<Rightarrow> string \<Rightarrow> signal \<Rightarrow> stage \<Rightarrow> world_v3 \<Rightarrow> progress \<times> world_v3" where
  "apply_resume site blobUrl (PageReady now) ForPage w =
     (if \<not> truthy (cssContent_v3 w) then enter_fetch site blobUrl now w
      else inject_from site blobUrl w)"
| "apply_resume site blobUrl (Answer later r) ForGM w =
     (case checked_body r of
        Some css \<Rightarrow> fetched site blobUrl later css (Some ''jsdelivr_via_gm'') w
      | None \<Rightarrow> enter_berry site w)"
| "apply_resume site blobUrl (Answer later r) (ForBerry i) w =
     (case unchecked_body r of
        Some css \<Rightarrow> fetched site blobUrl later css None w
      | None \<Rightarrow> await_berry site (i + 1) w)"
| "apply_resume site blobUrl (Answer later r) ForBerryGitHub w =
     (case unchecked_body r of
        Some css \<Rightarrow>
          fetched site blobUrl later css None (w\<lparr>cdnStatus := ''github_fallback_berry''\<rparr>)
      | None \<Rightarrow> (Suspended ForDirect, w))"
| "apply_resume site blobUrl (Answer later r) ForDirect w =
     (case checked_body r of
        Some css \<Rightarrow> fetched site blobUrl later css (Some ''jsdelivr_direct'') w
      | None \<Rightarrow> enter_github site w)"
| "apply_resume site blobUrl (Answer later r) ForGitHub w =
     (case checked_body r of
        Some css \<Rightarrow> fetched site blobUrl later css (Some ''github_fallback'') w
      | None \<Rightarrow> enter_proxies site w)"
| "apply_resume site blobUrl (Answer later r) (ForPrimary i proxyUrl rest) w =
     (case checked_body r of
        Some css \<Rightarrow> fetched site blobUrl later css (Some ''cors_proxy'') w
      | None \<Rightarrow> await_primary site (i + 1) rest w)"
| "apply_resume site blobUrl (Answer later r) (ForFallback i proxyUrl rest) w =
     (case checked_body r of
        Some css \<Rightarrow> fetched site blobUrl later css (Some ''cors_proxy'') w
      | None \<Rightarrow> await_fallback (i + 1) rest w)"
| "apply_resume site blobUrl (LinkEvent e) (ForBlob link) w =
     (case e of
        Loaded \<Rightarrow> applied ''blob-link'' (w\<lparr>styleElement_v3 := Some link\<rparr>)
      | Errored \<Rightarrow> try_style site (w\<lparr>page_v3 := detach link (page_v3 w)\<rparr>)
      | Expired sheet \<Rightarrow>
          if sheet then applied ''blob-link'' (w\<lparr>styleElement_v3 := Some link\<rparr>)
          else try_style site w)"
| "apply_resume site blobUrl (LinkEvent e) (ForExternal link) w =
     (case e of
        Loaded \<Rightarrow> applied ''external-link'' (w\<lparr>styleElement_v3 := Some link\<rparr>)
      | Errored \<Rightarrow> failed (w\<lparr>page_v3 := detach link (page_v3 w)\<rparr>)
      | Expired sheet \<Rightarrow> failed w)"
| "apply_resume site blobUrl e st w = (Suspended st, w)"

text \<open>
  A whole \<open>apply\<close> against a network and a page that deliver every awaited event: the
  event that resumes each stage, and the call resumed until it returns. Every stage has
  fewer waits ahead of it than the one before; \<open>rank\<close> bounds them.
\<close>

fun awaited :: "site_v3 \<Rightarrow> network_v3 \<Rightarrow> page_events \<Rightarrow> int \<Rightarrow> int \<Rightarrow> stage \<Rightarrow> signal" where
  "awaited site net ev now later ForPage = PageReady now"
| "awaited site net ev now later ForGM = Answer later (net (ViaGM (styleURL_v3 site)))"
| "awaited site net ev now later (ForBerry i) =
     Answer later (net (BerryStrategy i (styleURL_v3 site)))"
| "awaited site net ev now later ForBerryGitHub =
     Answer later (net (BerryGitHub (the (fallbackURL site))))"
| "awaited site net ev now later ForDirect = Answer later (net (DirectFetch (styleURL_v3 site)))"
| "awaited site net ev now later ForGitHub =
     Answer later (net (GitHubFetch (the (fallbackURL site))))"
| "awaited site net ev now later (ForPrimary i proxyUrl rest) =
     Answer later (net (PrimaryProxy i proxyUrl))"
| "awaited site net ev now later (ForFallback i proxyUrl rest) =
     Answer later (net (FallbackProxy i proxyUrl))"
| "awaited site net ev now later (ForBlob link) = LinkEvent (blob_event ev)"
| "awaited site net ev now later (ForExternal link) = LinkEvent (external_event ev)"

fun rank :: "stage \<Rightarrow> nat" where
  "rank ForPage = 40"
| "rank ForGM = 30"
| "rank (ForBerry i) = 21 + (4 - i)"
| "rank ForBerryGitHub = 20"
| "rank ForDirect = 19"
| "rank ForGitHub = 18"
| "rank (ForPrimary i proxyUrl rest) = 10 + length rest"
| "rank (ForFallback i proxyUrl rest) = 3 + length rest"
| "rank (ForBlob link) = 2"
| "rank (ForExternal link) = 1"

fun weight :: "progress \<Rightarrow> nat" where
  "weight (Finished b) = 0"
| "weight (Suspended st) = Suc (rank st)"

function drive ::
  "site_v3 \<Rightarrow> network_v3 \<Rightarrow> page_events \<Rightarrow> int \<Rightarrow> int \<Rightarrow> progress \<times> world_v3 \<Rightarrow> bool \<times> world_v3" where
  "drive site net ev now later (Finished b, w) = (b, w)"
| "drive site net ev now later (Suspended st, w) =
     drive site net ev now later
       (apply_resume site (object_url ev) (awaited site net ev now later st) st w)"
  by pat_completeness auto

termination
proof (relation "measure (\<lambda>(site, net, ev, now, later, c). weight (fst c))")
  show "wf (measure (\<lambda>(site, net, ev, now, later, c). weight (fst c)))"
    by simp
next
  fix site :: site_v3 and net :: network_v3 and ev :: page_events and now later :: int
    and st :: stage and w :: world_v3
  let ?u = "object_url ev"
  have below: "weight p \<le> k \<Longrightarrow> k < n \<Longrightarrow> weight p < n" for p k n
    by simp
  have fa: "weight (fst (failed v)) = 0" for v
    by (simp add: failed_def)
  have ap: "weight (fst (applied name v)) = 0" for name v
    by (simp add: applied_def)
  have ex: "weight (fst (try_external site v)) \<le> 2" for v
    by (simp add: try_external_def Let_def fa)
  have sty: "weight (fst (try_style site v)) \<le> 2" for v
    by (cases "injectViaStyle site v") (simp add: try_style_def ap ex split: bool.split)
  have bl: "weight (fst (try_blob site ?u v)) \<le> 3" for v
    using sty [of v] by (simp add: try_blob_def Let_def)
  have inj: "weight (fst (inject_from site ?u v)) \<le> 3" for v
    using bl [of v] by (simp add: inject_from_def fa)
  have fe: "weight (fst (fetched site ?u later css status v)) \<le> 3" for css status v
    by (simp add: fetched_def inj)
  have fb: "weight (fst (await_fallback i ts v)) \<le> 3 + length ts" for i ts v
    by (cases ts) (simp_all add: fa)
  have efb: "weight (fst (enter_fallback site v)) \<le> 6" for v
    using fb [of 0 "[CorsProxy (the (fallbackURL site)), CodeTabs (the (fallbackURL site)),
      AllOrigins (the (fallbackURL site))]" v]
    by (simp add: enter_fallback_def fa)
  have pr: "weight (fst (await_primary site i ts v)) \<le> 10 + length ts" for i ts v
    using efb [of v] by (cases ts) simp_all
  have px: "weight (fst (enter_proxies site v)) \<le> 14" for v
    using pr [of 0 "[CorsProxy (styleURL_v3 site), CodeTabs (styleURL_v3 site),
      AllOrigins (styleURL_v3 site), Plain (styleURL_v3 site)]" v]
    by (simp add: enter_proxies_def)
  have gh: "weight (fst (enter_github site v)) \<le> 19" for v
    using px [of v] by (simp add: enter_github_def)
  have ab: "weight (fst (await_berry site (Suc i) v)) \<le> 21 + (4 - i)" for i v
    by (auto simp: await_berry_def)
  have be: "weight (fst (enter_berry site v)) \<le> 26" for v
    by (simp add: enter_berry_def await_berry_def)
  have fc: "weight (fst (enter_fetch site ?u now v)) \<le> 31" for v
    by (auto simp: enter_fetch_def Let_def intro: le_trans [OF inj] le_trans [OF be])
  have "weight (fst (apply_resume site ?u (awaited site net ev now later st) st w)) < Suc (rank st)"
  proof (cases st)
    case ForPage
    then show ?thesis by (auto intro!: below [OF fc] below [OF inj])
  next
    case ForGM
    then show ?thesis by (auto split: option.split intro!: below [OF fe] below [OF be])
  next
    case (ForBerry i)
    then show ?thesis
      using ab [of i w] by (auto split: option.split intro!: below [OF fe])
  next
    case ForBerryGitHub
    then show ?thesis by (auto split: option.split intro!: below [OF fe])
  next
    case ForDirect
    then show ?thesis by (auto split: option.split intro!: below [OF fe] below [OF gh])
  next
    case ForGitHub
    then show ?thesis by (auto split: option.split intro!: below [OF fe] below [OF px])
  next
    case (ForPrimary i t ts)
    then show ?thesis
      using pr [of "Suc i" ts w] by (auto split: option.split intro!: below [OF fe])
  next
    case (ForFallback i t ts)
    then show ?thesis
      using fb [of "Suc i" ts w] by (auto split: option.split intro!: below [OF fe])
  next
    case (ForBlob link)
    then show ?thesis
      by (auto simp: ap split: load_event.split intro!: below [OF sty])
  next
    case (ForExternal link)
    then show ?thesis by (simp add: ap fa split: load_event.split)
  qed
  then show "((site, net, ev, now, later,
               apply_resume site (object_url ev) (awaited site net ev now later st) st w),
              (site, net, ev, now, later, Suspended st, w))
             \<in> measure (\<lambda>(site, net, ev, now, later, c). weight (fst c))"
    by simp
qed

text \<open>
  \<open>apply\<close> from the return of \<open>fetchExternalCSS\<close> on, in one piece: the \<open>catch\<close> for an
  error of the fetch, the test of \<open>state.cssContent\<close>, the injection methods, and the
  \<open>catch\<close> again.
\<close>

definition apply_after_fetch ::
  "site_v3 \<Rightarrow> page_events \<Rightarrow> (js_error + string) \<times> world_v3 \<Rightarrow> bool \<times> world_v3" where
  "apply_after_fetch site ev res =
     (case res of
        (Inl e, w1) \<Rightarrow> (False, w1\<lparr>isLoading := False\<rparr>)
      | (Inr css, w1) \<Rightarrow>
          (case (if \<not> truthy (cssContent_v3 w1) \<or> length (trim (the (cssContent_v3 w1))) = 0
                 then (Inl EmptyContent, w1)
                 else inject_methods site ev w1) of
             (Inl e, w2) \<Rightarrow> (False, w2\<lparr>isLoading := False\<rparr>)
           | (Inr b, w2) \<Rightarrow> (b, w2)))"

section \<open>Version 4.0: configuration, state and cache\<close>

definition CACHE_DURATION_v4 :: int where
  "CACHE_DURATION_v4 = 24 * 60 * 60 * 1000"

definition CACHE_KEY_PREFIX_v4 :: string where
  "CACHE_KEY_PREFIX_v4 = ''css_cache_v4_''"

definition MAX_RETRIES_v4 :: nat where
  "MAX_RETRIES_v4 = 2"

record site_v4 =
  name_v4 :: string
  cdnURLs :: "string list"
  styleID_v4 :: string
  enabledKey_v4 :: string

text \<open>The record \<open>saveToCache\<close> serialises.\<close>

record entry_v4 =
  css_v4 :: string
  timestamp_v4 :: int
  cdnURL :: string

datatype transport = Fetch | Xhr

text \<open>
  One element of \<open>state.fetchAttempts\<close>. The fields \<open>cdn\<close>, \<open>duration\<close> and \<open>size\<close> of the
  source are derived for the log only and are left out.
\<close>

record attempt =
  att_url :: string
  att_method :: transport
  att_success :: bool
  att_error :: "js_error option"

text \<open>
  The script's \<open>state\<close> object together with the two parts of the browser it works on.
\<close>

record world_v4 =
  cssContent_v4 :: "string option"
  isEnabled :: bool
  isFetching :: bool
  successfulCDN :: "string option"
  fetchAttempts :: "attempt list"
  storage_v4 :: "entry_v4 localStorage"
  page_v4 :: document

text \<open>
  \<open>utils.getFromCache\<close>, read at time \<open>now\<close>. Every exception inside is caught and turned
  into \<open>null\<close>: a blocked storage, text that does not parse, \<open>null\<close> (destructuring throws)
  and a boolean (\<open>css\<close> is undefined, \<open>css.length\<close> throws).
\<close>

definition getFromCache :: "site_v4 \<Rightarrow> int \<Rightarrow> world_v4 \<Rightarrow> string option \<times> world_v4" where
  "getFromCache site now w =
     (case getItem (storage_v4 w) (CACHE_KEY_PREFIX_v4 @ name_v4 site) of
        Inl e \<Rightarrow> (None, w)
      | Inr None \<Rightarrow> (None, w)
      | Inr (Some cached) \<Rightarrow>
          if cached = Garbage [] then (None, w)
          else
            (case JSON_parse cached of
               Inl e \<Rightarrow> (None, w)
             | Inr JNull \<Rightarrow> (None, w)
             | Inr (JBool b) \<Rightarrow> (None, w)
             | Inr (JObj e) \<Rightarrow>
                 if now - timestamp_v4 e > CACHE_DURATION_v4 then (None, w)
                 else (Some (css_v4 e), w\<lparr>successfulCDN := Some (cdnURL e)\<rparr>)))"

text \<open>\<open>utils.saveToCache\<close>, written at time \<open>now\<close>; a failed write is logged and dropped.\<close>

definition saveToCache :: "site_v4 \<Rightarrow> int \<Rightarrow> string \<Rightarrow> string \<Rightarrow> world_v4 \<Rightarrow> world_v4" where
  "saveToCache site now css url w =
     (case setItem (storage_v4 w) (CACHE_KEY_PREFIX_v4 @ name_v4 site)
             (Stringified (JObj \<lparr>css_v4 = css, timestamp_v4 = now, cdnURL = url\<rparr>)) of
        Inl e \<Rightarrow> w
      | Inr ls \<Rightarrow> w\<lparr>storage_v4 := ls\<rparr>)"

text \<open>\<open>utils.getEnabled\<close>: the parsed value, and \<open>true\<close> when the key is absent or reading throws.\<close>

definition getEnabled :: "site_v4 \<Rightarrow> world_v4 \<Rightarrow> entry_v4 jsval" where
  "getEnabled site w =
     (case getItem (storage_v4 w) (enabledKey_v4 site) of
        Inl e \<Rightarrow> JBool True
      | Inr None \<Rightarrow> JBool True
      | Inr (Some v) \<Rightarrow> (case JSON_parse v of Inl e \<Rightarrow> JBool True | Inr x \<Rightarrow> x))"

definition setEnabled :: "site_v4 \<Rightarrow> bool \<Rightarrow> world_v4 \<Rightarrow> world_v4" where
  "setEnabled site enabled w =
     (case setItem (storage_v4 w) (enabledKey_v4 site) (Stringified (JBool enabled)) of
        Inl e \<Rightarrow> w
      | Inr ls \<Rightarrow> w\<lparr>storage_v4 := ls, isEnabled := enabled\<rparr>)"

section \<open>Version 4.0: the fetcher\<close>

text \<open>
  \<open>cssFetcher.getOptimizedCDNOrder\<close>: a copy of the configured list in which a remembered
  URL found at a position after the first is moved to the front.
\<close>

definition getOptimizedCDNOrder :: "site_v4 \<Rightarrow> world_v4 \<Rightarrow> string list" where
  "getOptimizedCDNOrder site w =
     (let urls = cdnURLs site in
      if truthy (successfulCDN w) then
        (let successIndex = indexOf urls (the (successfulCDN w)) in
         if successIndex > 0
         then the (successfulCDN w) # (take (nat successIndex) urls @ drop (nat successIndex + 1) urls)
         else urls)
      else urls)"

text \<open>
  What one request hands to the script: the body of a response with a success status, or
  the error that \<open>fetch\<close> or the \<open>XMLHttpRequest\<close> callbacks raise.
\<close>

definition receive :: "transport \<Rightarrow> response \<Rightarrow> js_error + string" where
  "receive m r =
     (case r of
        Rejected \<Rightarrow> Inl NetworkError
      | TimedOut \<Rightarrow> Inl (case m of Fetch \<Rightarrow> AbortError | Xhr \<Rightarrow> Timeout)
      | Http status b \<Rightarrow> if ok status then Inr b else Inl (HttpError status))"

text \<open>
  \<open>cssFetcher.fetchFromURL\<close> for a request answered by \<open>r\<close>: the body must be non-empty
  after trimming, at least 10 long and contain an opening brace. Success and failure are
  both appended to \<open>state.fetchAttempts\<close>; success also remembers the URL. \<open>Inl\<close> is the
  error the function rethrows.
\<close>

definition fetchFromURL ::
  "response \<Rightarrow> string \<Rightarrow> transport \<Rightarrow> world_v4 \<Rightarrow> (js_error + string \<times> string) \<times> world_v4" where
  "fetchFromURL r url m w =
     (case (case receive m r of
              Inl e \<Rightarrow> Inl e
            | Inr css \<Rightarrow>
                if css = [] \<or> length (trim css) = 0 then Inl EmptyResponse
                else if length css < 10 \<or> CHR ''{'' \<notin> set css then Inl InvalidCSS
                else Inr css) of
        Inr css \<Rightarrow>
          (Inr (css, url),
           w\<lparr>fetchAttempts := fetchAttempts w @
                [\<lparr>att_url = url, att_method = m, att_success = True, att_error = None\<rparr>],
             successfulCDN := Some url\<rparr>)
      | Inl e \<Rightarrow>
          (Inl e,
           w\<lparr>fetchAttempts := fetchAttempts w @
                [\<lparr>att_url = url, att_method = m, att_success = False, att_error = Some e\<rparr>]\<rparr>))"

text \<open>
  \<open>cssFetcher.fetchCSS\<close> is asynchronous: it runs until it returns or until it awaits a
  request or the back-off timer, and it is resumed when the awaited event arrives. What is
  left of its three nested loops at a suspension point is the list of the steps still to
  come: \<open>schedule\<close> lays the loops out, one pass over every URL and both methods per retry,
  with the back-off wait between passes.
\<close>

datatype work = Attempt string transport | Backoff nat

datatype 'a outcome = Returned 'a | Awaiting "work list"

datatype event = Reply int response | Timer

definition methods :: "transport list" where
  "methods = [Fetch, Xhr]"

definition pass :: "string list \<Rightarrow> work list" where
  "pass urls = concat (map (\<lambda>url. map (Attempt url) methods) urls)"

definition schedule :: "string list \<Rightarrow> work list" where
  "schedule urls =
     concat (map (\<lambda>retry. pass urls @
                    (if retry < MAX_RETRIES_v4 - 1 then [Backoff (1000 * (retry + 1))] else []))
                 [0..<MAX_RETRIES_v4])"

text \<open>Past the loops: the flag is cleared and \<open>null\<close> is returned.\<close>

fun advance :: "work list \<Rightarrow> world_v4 \<Rightarrow> string option outcome \<times> world_v4" where
  "advance [] w = (Returned None, w\<lparr>isFetching := False\<rparr>)"
| "advance (x # xs) w = (Awaiting (x # xs), w)"

text \<open>
  The body of the innermost loop once the request is answered at time \<open>now\<close>: \<open>Some css\<close>
  when \<open>fetchCSS\<close> returns from here, \<open>None\<close> when the loop continues.
\<close>

definition try_source ::
  "site_v4 \<Rightarrow> int \<Rightarrow> response \<Rightarrow> string \<Rightarrow> transport \<Rightarrow> world_v4 \<Rightarrow> string option \<times> world_v4" where
  "try_source site now r url m w =
     (case fetchFromURL r url m w of
        (Inr (css, successURL), w1) \<Rightarrow>
          if css \<noteq> [] then
            (Some css, (saveToCache site now css successURL w1)
                         \<lparr>cssContent_v4 := Some css, isFetching := False\<rparr>)
          else (None, w1)
      | (Inl e, w1) \<Rightarrow> (None, w1))"

text \<open>The synchronous start of \<open>fetchCSS\<close>, called at time \<open>now\<close>.\<close>

definition fetchCSS_begin :: "site_v4 \<Rightarrow> int \<Rightarrow> world_v4 \<Rightarrow> string option outcome \<times> world_v4" where
  "fetchCSS_begin site now w =
     (if isFetching w then (Returned None, w)
      else
        (case getFromCache site now (w\<lparr>isFetching := True, fetchAttempts := []\<rparr>) of
           (cached, w1) \<Rightarrow>
             if truthy cached
             then (Returned cached, w1\<lparr>cssContent_v4 := cached, isFetching := False\<rparr>)
             else advance (schedule (getOptimizedCDNOrder site w1)) w1))"

text \<open>The suspended call is resumed by the event it awaits; any other event is not for it.\<close>

fun fetchCSS_resume ::
  "site_v4 \<Rightarrow> event \<Rightarrow> work list \<Rightarrow> world_v4 \<Rightarrow> string option outcome \<times> world_v4" where
  "fetchCSS_resume site (Reply now r) (Attempt url m # rest) w =
     (case try_source site now r url m w of
        (Some css, w1) \<Rightarrow> (Returned (Some css), w1)
      | (None, w1) \<Rightarrow> advance rest w1)"
| "fetchCSS_resume site Timer (Backoff d # rest) w = advance rest w"
| "fetchCSS_resume site ev ws w = (Awaiting ws, w)"

text \<open>
  A whole fetch cycle against a network that answers every request: \<open>net n url m\<close> is the
  arrival time and the answer of the \<open>n\<close>-th request of the cycle.
\<close>

type_synonym network = "nat \<Rightarrow> string \<Rightarrow> transport \<Rightarrow> int \<times> response"

fun run :: "site_v4 \<Rightarrow> network \<Rightarrow> work list \<Rightarrow> world_v4 \<Rightarrow> string option \<times> world_v4" where
  "run site net [] w = (None, w\<lparr>isFetching := False\<rparr>)"
| "run site net (Backoff d # rest) w = run site net rest w"
| "run site net (Attempt url m # rest) w =
     (case net (length (fetchAttempts w)) url m of
        (now, r) \<Rightarrow>
          (case try_source site now r url m w of
             (Some css, w1) \<Rightarrow> (Some css, w1)
           | (None, w1) \<Rightarrow> run site net rest w1))"

definition fetchCSS_v4 :: "site_v4 \<Rightarrow> network \<Rightarrow> int \<Rightarrow> world_v4 \<Rightarrow> string option \<times> world_v4" where
  "fetchCSS_v4 site net now w =
     (case fetchCSS_begin site now w of
        (Returned v, w1) \<Rightarrow> (v, w1)
      | (Awaiting ws, w1) \<Rightarrow> run site net ws w1)"

section \<open>Version 4.0: injector and application\<close>

definition remove_v4 :: "site_v4 \<Rightarrow> world_v4 \<Rightarrow> world_v4" where
  "remove_v4 site w = w\<lparr>page_v4 := remove_first (styleID_v4 site) (page_v4 w)\<rparr>"

text \<open>
  Version 4.0 has no \<open>isApplied\<close> function of its own; where it asks whether the style is
  in the page (the navigation watcher, the verification timer) it evaluates
  \<open>document.getElementById(currentSite.styleID)\<close>.
\<close>

definition isApplied_v4 :: "site_v4 \<Rightarrow> world_v4 \<Rightarrow> bool" where
  "isApplied_v4 site w \<longleftrightarrow> getElementById (page_v4 w) (styleID_v4 site) \<noteq> None"

definition inject :: "site_v4 \<Rightarrow> string \<Rightarrow> world_v4 \<Rightarrow> bool \<times> world_v4" where
  "inject site css w =
     (if css = [] \<or> length (trim css) = 0 then (False, w)
      else
        (let w1 = remove_v4 site w;
             style = \<lparr>tagName = STYLE, elem_id = styleID_v4 site,
                      attributes = [(''type'', ''text/css''),
                                    (''data-source'', ''berry-styler-cdn''),
                                    (''data-cdn'', if truthy (successfulCDN w1)
                                                   then the (successfulCDN w1) else ''cached'')],
                      href = [], textContent = css\<rparr>
         in (True, w1\<lparr>page_v4 := (if head (page_v4 w1) \<noteq> None
                                   then append_head style (page_v4 w1)
                                   else append_root style (page_v4 w1))\<rparr>)))"

text \<open>
  \<open>app.loadAndApplyCSS\<close>, the entry point of the pipeline, wrapped in its own \<open>try\<close>. While
  the document is still loading the injection is left to the \<open>DOMContentLoaded\<close> listener.
  The toast of the failure branch is presentation and is not modelled.
\<close>

definition loadAndApplyCSS ::
  "site_v4 \<Rightarrow> network \<Rightarrow> int \<Rightarrow> bool \<Rightarrow> world_v4 \<Rightarrow> (js_error + unit) \<times> world_v4" where
  "loadAndApplyCSS site net now loading w =
     (case fetchCSS_v4 site net now w of
        (css, w1) \<Rightarrow>
          if truthy css then
            (let w2 = w1\<lparr>cssContent_v4 := css\<rparr> in
             if loading then (Inr (), w2) else (Inr (), snd (inject site (the css) w2)))
          else (Inr (), w1))"

text \<open>\<open>app.refresh\<close>: the manual reload. It forgets the cache entry and the remembered URL.\<close>

definition refresh :: "site_v4 \<Rightarrow> network \<Rightarrow> int \<Rightarrow> bool \<Rightarrow> world_v4 \<Rightarrow> (js_error + unit) \<times> world_v4" where
  "refresh site net now loading w =
     (let w1 = (case removeItem (storage_v4 w) (CACHE_KEY_PREFIX_v4 @ name_v4 site) of
                  Inl e \<Rightarrow> w
                | Inr ls \<Rightarrow> w\<lparr>storage_v4 := ls, successfulCDN := None\<rparr>);
          w2 = remove_v4 site (w1\<lparr>cssContent_v4 := None\<rparr>)
      in if isEnabled w2 then loadAndApplyCSS site net now loading w2 else (Inr (), w2))"

section \<open>Notions used by the properties\<close>

text \<open>
  The configurations a started \<open>fetchCSS\<close> call of version 4.0 passes through before it
  returns: what is left of its loops, and the state at that moment. Between two events
  the call is suspended and other code runs: a further call of \<open>fetchCSS\<close>, or any other
  part of the script, none of which assigns \<open>state.isFetching\<close>.
\<close>

inductive in_flight :: "site_v4 \<Rightarrow> work list \<Rightarrow> world_v4 \<Rightarrow> bool" for site where
  started: "fetchCSS_begin site now w = (Awaiting ws, w') \<Longrightarrow> in_flight site ws w'"
| resumed: "in_flight site ws w \<Longrightarrow> fetchCSS_resume site ev ws w = (Awaiting ws', w') \<Longrightarrow>
            in_flight site ws' w'"
| called: "in_flight site ws w \<Longrightarrow> fetchCSS_begin site now w = (out, w') \<Longrightarrow>
           in_flight site ws w'"
| interleaved: "in_flight site ws w \<Longrightarrow> isFetching w' = isFetching w \<Longrightarrow> in_flight site ws w'"

text \<open>
  The same for a started \<open>apply\<close> of version 3.0, inside which the fetch of that
  generation runs: the stage at which the call is suspended, and the state at that
  moment. The call starts, it is resumed by an event, \<open>apply\<close> is called again while it
  is suspended, or other code of the script runs; \<open>state.isLoading\<close> is assigned in
  \<open>apply\<close> and nowhere else.
\<close>

inductive in_flight_v3 :: "site_v3 \<Rightarrow> stage \<Rightarrow> world_v3 \<Rightarrow> bool" for site where
  started_v3: "apply_begin site now w = (Suspended st, w') \<Longrightarrow> in_flight_v3 site st w'"
| resumed_v3: "in_flight_v3 site st w \<Longrightarrow> apply_resume site blobUrl e st w = (Suspended st', w') \<Longrightarrow>
               in_flight_v3 site st' w'"
| called_v3: "in_flight_v3 site st w \<Longrightarrow> apply_begin site now w = (out, w') \<Longrightarrow>
              in_flight_v3 site st w'"
| interleaved_v3: "in_flight_v3 site st w \<Longrightarrow> isLoading w' = isLoading w \<Longrightarrow>
                   in_flight_v3 site st w'"


fun usable_v4 :: "response \<Rightarrow> bool" where
  "usable_v4 (Http status css) =
     (ok status \<and> css \<noteq> [] \<and> length (trim css) > 0 \<and> 10 \<le> length css \<and> CHR ''{'' \<in> set css)"
| "usable_v4 Rejected = False"
| "usable_v4 TimedOut = False"




text \<open>
  No flag can be read from the storage under the key: the storage is blocked, the key is
  absent, or its text does not parse.
\<close>

definition no_flag :: "'e localStorage \<Rightarrow> string \<Rightarrow> bool" where
  "no_flag ls key \<longleftrightarrow>
     denied ls \<or>
     (case items ls key of
        None \<Rightarrow> True
      | Some (Garbage s) \<Rightarrow> True
      | Some (Stringified v) \<Rightarrow> False)"

text \<open>
  The document invariants of the injectors. In version 3.0 every element that carries
  the profile's id was made by an injection method and has its \<open>data-method\<close> attribute;
  in version 4.0 at most one element carries the id.
\<close>

definition owned_v3 :: "site_v3 \<Rightarrow> world_v3 \<Rightarrow> bool" where
  "owned_v3 site w \<longleftrightarrow>
     list_all (\<lambda>el. elem_id el = styleID_v3 site \<longrightarrow> getAttribute el ''data-method'' \<noteq> None)
       (nodes (page_v3 w))"

definition single_v4 :: "site_v4 \<Rightarrow> world_v4 \<Rightarrow> bool" where
  "single_v4 site w \<longleftrightarrow>
     length (filter (\<lambda>el. elem_id el = styleID_v4 site) (nodes (page_v4 w))) \<le> 1"

section \<open>The configured sites and a freshly loaded page\<close>

text \<open>The \<open>SITES\<close> tables of the three generations, and the state each script starts in.\<close>

definition chatgpt_v2 :: site_v2 where
  "chatgpt_v2 =
     \<lparr>name_v2 = ''ChatGPT'',
      styleURL_v2 = ''https://raw.githubusercontent.com/yfjuu4/ai-chat-styles/refs/heads/main/ChatGpt%20style.css'',
      backupStyleURL = ''https://cdn.jsdelivr.net/gh/yfjuu4/ai-chat-styles@main/ChatGpt%20style.css'',
      styleID_v2 = ''chatgpt-enhanced-styles'',
      berryInjectionPoint = ''body'',
      requiresFullReady = True,
      berryFallbackCSS = Some ''body { background-color: red !important; border: 5px green solid; }''\<rparr>"


definition chatgpt_v3 :: site_v3 where
  "chatgpt_v3 =
     \<lparr>name_v3 = ''ChatGPT'',
      styleURL_v3 = ''https://cdn.jsdelivr.net/gh/yfjuu4/ai-chat-styles@main/ChatGpt_style.css'',
      fallbackURL = Some ''https://raw.githubusercontent.com/yfjuu4/ai-chat-styles/main/ChatGpt_style.css'',
      styleID_v3 = ''chatgpt-enhanced-styles'',
      enabledKey_v3 = ''chatgpt_styles_enabled'',
      version_v3 = ''v3.0''\<rparr>"

definition chatgpt_v4 :: site_v4 where
  "chatgpt_v4 =
     \<lparr>name_v4 = ''ChatGPT'',
      cdnURLs =
        [''https://cdn.jsdelivr.net/gh/yfjuu4/ai-chat-styles@main/ChatGpt_style.css'',
         ''https://cdn.statically.io/gh/yfjuu4/ai-chat-styles/main/ChatGpt_style.css'',
         ''https://raw.githack.com/yfjuu4/ai-chat-styles/main/ChatGpt_style.css'',
         ''https://combinatronics.io/yfjuu4/ai-chat-styles/main/ChatGpt_style.css'',
         ''https://raw.githubusercontent.com/yfjuu4/ai-chat-styles/main/ChatGpt_style.css''],
      styleID_v4 = ''chatgpt-enhanced-styles'',
      enabledKey_v4 = ''chatgpt_styles_enabled''\<rparr>"

definition empty_storage :: "'e localStorage" where
  "empty_storage = \<lparr>items = Map.empty, denied = False, full = False\<rparr>"

definition empty_page :: document where
  "empty_page = \<lparr>head = Some [], body = Some [], root = []\<rparr>"

definition fresh_v2 :: world_v2 where
  "fresh_v2 =
     \<lparr>styleElement_v2 = None, isBerryBrowser_v2 = True, currentDomain_v2 = ''chatgpt.com'',
      storage_v2 = empty_storage, page_v2 = empty_page\<rparr>"

definition fresh_v3 :: world_v3 where
  "fresh_v3 =
     \<lparr>styleElement_v3 = None, isLoading = False, hasGrants = False, isBerryBrowser_v3 = False,
      cssContent_v3 = None, appliedMethod = None, lastApplyTime = 0, cdnStatus = ''unknown'',
      fetchAttempts_v3 = 0, currentDomain_v3 = ''chatgpt.com'', gm_store = None,
      storage_v3 = empty_storage, page_v3 = empty_page\<rparr>"

definition fresh_v4 :: world_v4 where
  "fresh_v4 =
     \<lparr>cssContent_v4 = None, isEnabled = True, isFetching = False, successfulCDN = None,
      fetchAttempts = [], storage_v4 = empty_storage, page_v4 = empty_page\<rparr>"

text \<open>A small stylesheet, and networks that answer every request the same way.\<close>

definition red_css :: string where
  "red_css = ''body{color:red}''"

definition offline_v4 :: network where
  "offline_v4 n url m = (0, Rejected)"

definition online_v4 :: network where
  "online_v4 n url m = (5, Http 200 red_css)"

text \<open>
  Worlds in which the stylesheet was cached at time 0, under the configured profile and
  under a profile that named another source URL at the time, and the records written.
\<close>

definition cached_v2 :: world_v2 where
  "cached_v2 = snd (setCachedCSS_v2 chatgpt_v2 0 red_css fresh_v2)"

definition cached_v3 :: world_v3 where
  "cached_v3 = snd (setCachedCSS_v3 chatgpt_v3 0 red_css fresh_v3)"

definition cached_v4 :: world_v4 where
  "cached_v4 = saveToCache chatgpt_v4 0 red_css (hd (cdnURLs chatgpt_v4)) fresh_v4"

definition entry_a :: entry_v2 where
  "entry_a = \<lparr>css_v2 = red_css, timestamp_v2 = 0, url_v2 = styleURL_v2 chatgpt_v2\<rparr>"

definition entry_b :: entry_v3 where
  "entry_b = \<lparr>css_v3 = red_css, timestamp_v3 = 0, url_v3 = styleURL_v3 chatgpt_v3,
              version_e = version_v3 chatgpt_v3, size_e = length red_css\<rparr>"

definition entry_c :: entry_v4 where
  "entry_c = \<lparr>css_v4 = red_css, timestamp_v4 = 0, cdnURL = hd (cdnURLs chatgpt_v4)\<rparr>"

definition old_url :: string where
  "old_url = ''https://old.example/ChatGpt_style.css''"

definition moved_v2 :: world_v2 where
  "moved_v2 = snd (setCachedCSS_v2 (chatgpt_v2\<lparr>styleURL_v2 := old_url\<rparr>) 0 red_css fresh_v2)"

definition moved_v3 :: world_v3 where
  "moved_v3 = snd (setCachedCSS_v3 (chatgpt_v3\<lparr>styleURL_v3 := old_url\<rparr>) 0 red_css fresh_v3)"

text \<open>
  Version 4.0 in the middle of a fetch cycle: the call has started on the fresh state, its
  first request was rejected, and it now awaits the second. Version 3.0 in the middle of
  an \<open>apply\<close>: the call has started on the fresh state at time 1000, the page was ready,
  the cache was empty, and it now awaits the answer to its direct request.
\<close>

definition mid_flight_v4 :: world_v4 where
  "mid_flight_v4 =
     snd (fetchCSS_resume chatgpt_v4 (Reply 5 Rejected) (schedule (cdnURLs chatgpt_v4))
            (snd (fetchCSS_begin chatgpt_v4 0 fresh_v4)))"

definition mid_flight_v3 :: world_v3 where
  "mid_flight_v3 =
     snd (apply_resume chatgpt_v3 ''1'' (PageReady 1000) ForPage
            (snd (apply_begin chatgpt_v3 1000 fresh_v3)))"

text \<open>
  A network on which only the third configured URL of version 4.0 answers, and the state
  after a fetch cycle on it from the fresh state.
\<close>

definition third_only :: network where
  "third_only n url m =
     (if url = cdnURLs chatgpt_v4 ! 2 then (5, Http 200 red_css) else (5, Rejected))"

definition after_third_v4 :: world_v4 where
  "after_third_v4 = snd (fetchCSS_v4 chatgpt_v4 third_only 0 fresh_v4)"

text \<open>
  A network that serves the stylesheet to every request of version 3.0, a page on which
  every stylesheet link loads, and the states after a successful injection.
\<close>

definition always_css :: network_v3 where
  "always_css req = Http 200 red_css"

definition all_loaded :: page_events where
  "all_loaded = \<lparr>blob_event = Loaded, external_event = Loaded, object_url = ''1''\<rparr>"

definition applied_v3 :: world_v3 where
  "applied_v3 = snd (apply_v3 chatgpt_v3 always_css all_loaded 1000 1001 fresh_v3)"

definition applied_v4 :: world_v4 where
  "applied_v4 = snd (inject chatgpt_v4 red_css fresh_v4)"

text \<open>A network of version 3.0 that answers every request with a two-character body.\<close>

definition tiny_v3 :: network_v3 where
  "tiny_v3 req = Http 200 ''ok''"






section \<open>The cache\<close>

lemma getValue_gm:
  "gm_store w = Some gm \<Longrightarrow> getValue key d w = (case gm key of None \<Rightarrow> d | Some v \<Rightarrow> v)"
  by (simp add: getValue_def safeCall_def)

lemma getValue_ls:
  "gm_store w = None \<Longrightarrow>
   getValue key d w =
     (if denied (storage_v3 w) then d
      else case items (storage_v3 w) key of
             None \<Rightarrow> d | Some (Garbage s) \<Rightarrow> d | Some (Stringified v) \<Rightarrow> v)"
  by (simp add: getValue_def safeCall_def getItem_def JSON_parse_def
           split: option.splits stored.splits)

lemma expiry_v2:
  "items (storage_v2 w) (''css_cache_'' @ name_v2 site) = Some (Stringified (JObj e)) \<Longrightarrow>
   now - timestamp_v2 e > CACHE_DURATION_v2 \<Longrightarrow> fst (getCachedCSS_v2 site now w) = None"
  by (simp add: getCachedCSS_v2_def getItem_def JSON_parse_def removeItem_def Let_def)

lemma expiry_v3:
  "getValue (CACHE_KEY_PREFIX_v3 @ name_v3 site) JNull w = JObj e \<Longrightarrow>
   now - timestamp_v3 e > CACHE_DURATION_v3 \<Longrightarrow> getCachedCSS_v3 site now w = None"
  by (simp add: getCachedCSS_v3_def)

lemma expiry_v4:
  "items (storage_v4 w) (CACHE_KEY_PREFIX_v4 @ name_v4 site) = Some (Stringified (JObj e)) \<Longrightarrow>
   now - timestamp_v4 e > CACHE_DURATION_v4 \<Longrightarrow> fst (getFromCache site now w) = None"
  by (simp add: getFromCache_def getItem_def JSON_parse_def)

lemma url_mismatch_v3:
  "getValue (CACHE_KEY_PREFIX_v3 @ name_v3 site) JNull w = JObj e \<Longrightarrow>
   url_v3 e \<noteq> styleURL_v3 site \<Longrightarrow> getCachedCSS_v3 site now w = None"
  by (simp add: getCachedCSS_v3_def)

lemma url_ignored_v2:
  "items (storage_v2 w) (''css_cache_'' @ name_v2 site) = Some (Stringified (JObj e)) \<Longrightarrow>
   \<not> denied (storage_v2 w) \<Longrightarrow> now - timestamp_v2 e \<le> CACHE_DURATION_v2 \<Longrightarrow>
   fst (getCachedCSS_v2 site now w) = Some (css_v2 e)"
  by (simp add: getCachedCSS_v2_def getItem_def JSON_parse_def Let_def)

lemma url_ignored_v4:
  "items (storage_v4 w) (CACHE_KEY_PREFIX_v4 @ name_v4 site) = Some (Stringified (JObj e)) \<Longrightarrow>
   \<not> denied (storage_v4 w) \<Longrightarrow> now - timestamp_v4 e \<le> CACHE_DURATION_v4 \<Longrightarrow>
   fst (getFromCache site now w) = Some (css_v4 e)"
  by (simp add: getFromCache_def getItem_def JSON_parse_def)

lemma roundtrip_v2:
  "setCachedCSS_v2 site t0 css w = (True, w1) \<Longrightarrow> t1 - t0 \<le> CACHE_DURATION_v2 \<Longrightarrow>
   fst (getCachedCSS_v2 site t1 w1) = Some css"
  by (auto simp: setCachedCSS_v2_def setItem_def getCachedCSS_v2_def getItem_def JSON_parse_def
                 Let_def
           split: if_splits)

lemma roundtrip_v3:
  "setCachedCSS_v3 site t0 css w = (True, w1) \<Longrightarrow> t1 - t0 \<le> CACHE_DURATION_v3 \<Longrightarrow>
   getCachedCSS_v3 site t1 w1 = Some css"
  by (auto simp: setCachedCSS_v3_def setValue_def safeCall_def setItem_def getCachedCSS_v3_def
                 getValue_def getItem_def JSON_parse_def
           split: if_splits option.splits)

lemma roundtrip_v4:
  "\<not> denied (storage_v4 w) \<Longrightarrow> \<not> full (storage_v4 w) \<Longrightarrow> t1 - t0 \<le> CACHE_DURATION_v4 \<Longrightarrow>
   fst (getFromCache site t1 (saveToCache site t0 css url w)) = Some css"
  by (simp add: saveToCache_def setItem_def getFromCache_def getItem_def JSON_parse_def)

lemma enabled_default_v3:
  "(case gm_store w of
      Some gm \<Rightarrow> gm (enabledKey_v3 site) = None
    | None \<Rightarrow> no_flag (storage_v3 w) (enabledKey_v3 site)) \<Longrightarrow>
   getCurrentSiteEnabled site w = JBool True"
  by (auto simp: getCurrentSiteEnabled_def getValue_def safeCall_def getItem_def JSON_parse_def
                 no_flag_def
           split: option.splits stored.splits)

lemma enabled_default_v4:
  "no_flag (storage_v4 w) (enabledKey_v4 site) \<Longrightarrow> getEnabled site w = JBool True"
  by (auto simp: getEnabled_def getItem_def JSON_parse_def no_flag_def
           split: option.splits stored.splits)

text \<open>
  C8. A cache entry whose timestamp lies more than the cache duration before the time of
  the read is answered with \<open>null\<close> by the get operation of every generation, whatever
  its content, URL or version.
\<close>

theorem expired_entry_is_absent:
  "(items (storage_v2 wa) (''css_cache_'' @ name_v2 sa) = Some (Stringified (JObj ea)) \<and>
    now - timestamp_v2 ea > CACHE_DURATION_v2
      \<longrightarrow> fst (getCachedCSS_v2 sa now wa) = None) \<and>
   (getValue (CACHE_KEY_PREFIX_v3 @ name_v3 sb) JNull wb = JObj eb \<and>
    now - timestamp_v3 eb > CACHE_DURATION_v3
      \<longrightarrow> getCachedCSS_v3 sb now wb = None) \<and>
   (items (storage_v4 wc) (CACHE_KEY_PREFIX_v4 @ name_v4 sc) = Some (Stringified (JObj ec)) \<and>
    now - timestamp_v4 ec > CACHE_DURATION_v4
      \<longrightarrow> fst (getFromCache sc now wc) = None)"
  using expiry_v2 expiry_v3 expiry_v4 by blast

lemma stored_a:
  "items (storage_v2 cached_v2) (''css_cache_'' @ name_v2 chatgpt_v2) =
     Some (Stringified (JObj entry_a))"
  by (simp add: cached_v2_def setCachedCSS_v2_def setItem_def fresh_v2_def empty_storage_def
        entry_a_def)

lemma stored_b:
  "getValue (CACHE_KEY_PREFIX_v3 @ name_v3 chatgpt_v3) JNull cached_v3 = JObj entry_b"
  by (simp add: cached_v3_def setCachedCSS_v3_def setValue_def safeCall_def setItem_def
        fresh_v3_def empty_storage_def entry_b_def getValue_def getItem_def JSON_parse_def)

lemma stored_c:
  "items (storage_v4 cached_v4) (CACHE_KEY_PREFIX_v4 @ name_v4 chatgpt_v4) =
     Some (Stringified (JObj entry_c))"
  by (simp add: cached_v4_def saveToCache_def setItem_def fresh_v4_def empty_storage_def
        entry_c_def)

lemma stored_moved:
  "getValue (CACHE_KEY_PREFIX_v3 @ name_v3 chatgpt_v3) JNull moved_v3 =
     JObj (entry_b\<lparr>url_v3 := old_url\<rparr>)"
  by (simp add: moved_v3_def setCachedCSS_v3_def setValue_def safeCall_def setItem_def
        fresh_v3_def empty_storage_def entry_b_def getValue_def getItem_def JSON_parse_def
        chatgpt_v3_def)

theorem expired_entry_is_absent_witness:
  "(items (storage_v2 cached_v2) (''css_cache_'' @ name_v2 chatgpt_v2) =
      Some (Stringified (JObj entry_a)) \<and>
    86400001 - timestamp_v2 entry_a > CACHE_DURATION_v2) \<and>
   fst (getCachedCSS_v2 chatgpt_v2 86400001 cached_v2) = None \<and>
   (getValue (CACHE_KEY_PREFIX_v3 @ name_v3 chatgpt_v3) JNull cached_v3 = JObj entry_b \<and>
    86400001 - timestamp_v3 entry_b > CACHE_DURATION_v3) \<and>
   getCachedCSS_v3 chatgpt_v3 86400001 cached_v3 = None \<and>
   (items (storage_v4 cached_v4) (CACHE_KEY_PREFIX_v4 @ name_v4 chatgpt_v4) =
      Some (Stringified (JObj entry_c)) \<and>
    86400001 - timestamp_v4 entry_c > CACHE_DURATION_v4) \<and>
   fst (getFromCache chatgpt_v4 86400001 cached_v4) = None"
  using expired_entry_is_absent [of cached_v2 chatgpt_v2 entry_a 86400001 chatgpt_v3 cached_v3
          entry_b cached_v4 chatgpt_v4 entry_c]
        stored_a stored_b stored_c
  by (simp add: entry_a_def entry_b_def entry_c_def CACHE_DURATION_v2_def CACHE_DURATION_v3_def
        CACHE_DURATION_v4_def)

text \<open>
  C2, as stated, fails: version 2.2 records the source URL in the entry and never reads
  it back. An entry cached while the profile named another URL is still returned one
  second later under the present profile.
\<close>

theorem url_change_keeps_entry_v2:
  "styleURL_v2 chatgpt_v2 \<noteq> old_url \<and>
   fst (getCachedCSS_v2 chatgpt_v2 1000 moved_v2) = Some red_css"
  by (simp add: moved_v2_def setCachedCSS_v2_def setItem_def getCachedCSS_v2_def getItem_def
        JSON_parse_def Let_def fresh_v2_def empty_storage_def chatgpt_v2_def old_url_def
        CACHE_DURATION_v2_def)

text \<open>
  C2, amended. In version 3.0 the get operation answers \<open>null\<close> for every stored entry
  whose recorded URL differs from the profile's \<open>styleURL\<close>, whatever its age. Versions
  2.2 and 4.0 do not compare the recorded URL: from a readable storage their get
  operations return the content of every entry that has not expired.
\<close>

theorem url_change_invalidates_v3_only:
  "(getValue (CACHE_KEY_PREFIX_v3 @ name_v3 sb) JNull wb = JObj eb \<and>
    url_v3 eb \<noteq> styleURL_v3 sb
      \<longrightarrow> getCachedCSS_v3 sb now wb = None) \<and>
   (items (storage_v2 wa) (''css_cache_'' @ name_v2 sa) = Some (Stringified (JObj ea)) \<and>
    \<not> denied (storage_v2 wa) \<and> now - timestamp_v2 ea \<le> CACHE_DURATION_v2
      \<longrightarrow> fst (getCachedCSS_v2 sa now wa) = Some (css_v2 ea)) \<and>
   (items (storage_v4 wc) (CACHE_KEY_PREFIX_v4 @ name_v4 sc) = Some (Stringified (JObj ec)) \<and>
    \<not> denied (storage_v4 wc) \<and> now - timestamp_v4 ec \<le> CACHE_DURATION_v4
      \<longrightarrow> fst (getFromCache sc now wc) = Some (css_v4 ec))"
  using url_mismatch_v3 url_ignored_v2 url_ignored_v4 by blast

theorem url_change_invalidates_v3_only_witness:
  "(getValue (CACHE_KEY_PREFIX_v3 @ name_v3 chatgpt_v3) JNull moved_v3 =
      JObj (entry_b\<lparr>url_v3 := old_url\<rparr>) \<and>
    url_v3 (entry_b\<lparr>url_v3 := old_url\<rparr>) \<noteq> styleURL_v3 chatgpt_v3) \<and>
   getCachedCSS_v3 chatgpt_v3 1000 moved_v3 = None \<and>
   (items (storage_v2 cached_v2) (''css_cache_'' @ name_v2 chatgpt_v2) =
      Some (Stringified (JObj entry_a)) \<and>
    \<not> denied (storage_v2 cached_v2) \<and> 1000 - timestamp_v2 entry_a \<le> CACHE_DURATION_v2) \<and>
   fst (getCachedCSS_v2 chatgpt_v2 1000 cached_v2) = Some (css_v2 entry_a) \<and>
   (items (storage_v4 cached_v4) (CACHE_KEY_PREFIX_v4 @ name_v4 chatgpt_v4) =
      Some (Stringified (JObj entry_c)) \<and>
    \<not> denied (storage_v4 cached_v4) \<and> 1000 - timestamp_v4 entry_c \<le> CACHE_DURATION_v4) \<and>
   fst (getFromCache chatgpt_v4 1000 cached_v4) = Some (css_v4 entry_c)"
  using url_change_invalidates_v3_only [of chatgpt_v3 moved_v3 "entry_b\<lparr>url_v3 := old_url\<rparr>" 1000
          cached_v2 chatgpt_v2 entry_a cached_v4 chatgpt_v4 entry_c]
        stored_moved stored_a stored_c
  by (simp add: entry_a_def entry_b_def entry_c_def CACHE_DURATION_v2_def CACHE_DURATION_v4_def
        old_url_def chatgpt_v3_def cached_v2_def cached_v4_def setCachedCSS_v2_def
        saveToCache_def setItem_def fresh_v2_def fresh_v4_def empty_storage_def)

text \<open>
  C5. A string stored by the set operation and read back by the get operation of the same
  generation under the same profile, no later than the cache duration after the write,
  comes back unchanged. Versions 2.2 and 3.0 report whether the write took place;
  version 4.0 writes whenever the storage accepts it.
\<close>

theorem cache_round_trip:
  "(setCachedCSS_v2 sa t0 css wa = (True, wa') \<and> t1 - t0 \<le> CACHE_DURATION_v2
      \<longrightarrow> fst (getCachedCSS_v2 sa t1 wa') = Some css) \<and>
   (setCachedCSS_v3 sb t0 css wb = (True, wb') \<and> t1 - t0 \<le> CACHE_DURATION_v3
      \<longrightarrow> getCachedCSS_v3 sb t1 wb' = Some css) \<and>
   (\<not> denied (storage_v4 wc) \<and> \<not> full (storage_v4 wc) \<and> t1 - t0 \<le> CACHE_DURATION_v4
      \<longrightarrow> fst (getFromCache sc t1 (saveToCache sc t0 css url wc)) = Some css)"
  using roundtrip_v2 roundtrip_v3 roundtrip_v4 by blast

theorem cache_round_trip_witness:
  "(setCachedCSS_v2 chatgpt_v2 0 red_css fresh_v2 = (True, cached_v2) \<and>
    1000 - 0 \<le> CACHE_DURATION_v2) \<and>
   fst (getCachedCSS_v2 chatgpt_v2 1000 cached_v2) = Some red_css \<and>
   (setCachedCSS_v3 chatgpt_v3 0 red_css fresh_v3 = (True, cached_v3) \<and>
    1000 - 0 \<le> CACHE_DURATION_v3) \<and>
   getCachedCSS_v3 chatgpt_v3 1000 cached_v3 = Some red_css \<and>
   (\<not> denied (storage_v4 fresh_v4) \<and> \<not> full (storage_v4 fresh_v4) \<and>
    1000 - 0 \<le> CACHE_DURATION_v4) \<and>
   fst (getFromCache chatgpt_v4 1000
          (saveToCache chatgpt_v4 0 red_css (hd (cdnURLs chatgpt_v4)) fresh_v4)) = Some red_css"
  using cache_round_trip [of chatgpt_v2 0 red_css fresh_v2 cached_v2 1000 chatgpt_v3 fresh_v3
          cached_v3 fresh_v4 chatgpt_v4 "hd (cdnURLs chatgpt_v4)"]
  by (simp add: cached_v2_def cached_v3_def setCachedCSS_v2_def setCachedCSS_v3_def setValue_def
        safeCall_def setItem_def fresh_v2_def fresh_v3_def fresh_v4_def empty_storage_def
        CACHE_DURATION_v2_def CACHE_DURATION_v3_def CACHE_DURATION_v4_def)

text \<open>
  C9. While no flag can be read for the profile (the key was never written, or reading
  it throws), the enabled query of versions 3.0 and 4.0 answers \<open>true\<close>.
\<close>

theorem enabled_by_default:
  "((case gm_store wb of
       Some gm \<Rightarrow> gm (enabledKey_v3 sb) = None
     | None \<Rightarrow> no_flag (storage_v3 wb) (enabledKey_v3 sb))
      \<longrightarrow> getCurrentSiteEnabled sb wb = JBool True) \<and>
   (no_flag (storage_v4 wc) (enabledKey_v4 sc) \<longrightarrow> getEnabled sc wc = JBool True)"
  using enabled_default_v3 enabled_default_v4 by blast

theorem enabled_by_default_witness:
  "(case gm_store fresh_v3 of
      Some gm \<Rightarrow> gm (enabledKey_v3 chatgpt_v3) = None
    | None \<Rightarrow> no_flag (storage_v3 fresh_v3) (enabledKey_v3 chatgpt_v3)) \<and>
   getCurrentSiteEnabled chatgpt_v3 fresh_v3 = JBool True \<and>
   no_flag (storage_v4 (fresh_v4\<lparr>storage_v4 := empty_storage\<lparr>denied := True\<rparr>\<rparr>))
     (enabledKey_v4 chatgpt_v4) \<and>
   getEnabled chatgpt_v4 (fresh_v4\<lparr>storage_v4 := empty_storage\<lparr>denied := True\<rparr>\<rparr>) = JBool True"
  using enabled_by_default [of fresh_v3 chatgpt_v3
          "fresh_v4\<lparr>storage_v4 := empty_storage\<lparr>denied := True\<rparr>\<rparr>" chatgpt_v4]
  by (simp add: fresh_v3_def fresh_v4_def empty_storage_def no_flag_def)

section \<open>The in-flight flag of version 4.0\<close>

text \<open>
  The whole cycle and the resumable call are one program: \<open>run\<close> is the suspended call
  resumed, step by step, by the answers of the network and by the back-off timer.
\<close>

lemma run_advance:
  "run site net ws w =
     (case advance ws w of
        (Returned v, w') \<Rightarrow> (v, w')
      | (Awaiting ws', w') \<Rightarrow> run site net ws' w')"
  by (cases ws) simp_all

lemma run_is_resume:
  "run site net (Attempt url m # rest) w =
     (case fetchCSS_resume site
             (Reply (fst (net (length (fetchAttempts w)) url m))
                    (snd (net (length (fetchAttempts w)) url m)))
             (Attempt url m # rest) w of
        (Returned v, w') \<Rightarrow> (v, w')
      | (Awaiting ws', w') \<Rightarrow> run site net ws' w')"
  "run site net (Backoff d # rest) w =
     (case fetchCSS_resume site Timer (Backoff d # rest) w of
        (Returned v, w') \<Rightarrow> (v, w')
      | (Awaiting ws', w') \<Rightarrow> run site net ws' w')"
proof -
  obtain now r where nr: "net (length (fetchAttempts w)) url m = (now, r)"
    by (cases "net (length (fetchAttempts w)) url m")
  obtain res w1 where ts: "try_source site now r url m w = (res, w1)"
    by (cases "try_source site now r url m w")
  show "run site net (Attempt url m # rest) w =
     (case fetchCSS_resume site
             (Reply (fst (net (length (fetchAttempts w)) url m))
                    (snd (net (length (fetchAttempts w)) url m)))
             (Attempt url m # rest) w of
        (Returned v, w') \<Rightarrow> (v, w')
      | (Awaiting ws', w') \<Rightarrow> run site net ws' w')"
    using nr ts run_advance [of site net rest w1] by (cases res) simp_all
  show "run site net (Backoff d # rest) w =
     (case fetchCSS_resume site Timer (Backoff d # rest) w of
        (Returned v, w') \<Rightarrow> (v, w')
      | (Awaiting ws', w') \<Rightarrow> run site net ws' w')"
    using run_advance [of site net rest w] by simp
qed

lemma getFromCache_keeps:
  "getFromCache site now w = (c, w') \<Longrightarrow>
     isFetching w' = isFetching w \<and> fetchAttempts w' = fetchAttempts w \<and>
     storage_v4 w' = storage_v4 w \<and> page_v4 w' = page_v4 w"
  by (auto simp: getFromCache_def split: sum.splits option.splits jsval.splits if_splits)

lemma try_source_flag:
  "try_source site now r url m w = (res, w') \<Longrightarrow>
     (case res of Some css \<Rightarrow> \<not> isFetching w' | None \<Rightarrow> isFetching w' = isFetching w)"
  by (auto simp: try_source_def fetchFromURL_def saveToCache_def
           split: sum.splits option.splits if_splits prod.splits)

lemma advance_flag:
  "advance ws w = (out, w') \<Longrightarrow>
     (case out of Returned v \<Rightarrow> \<not> isFetching w' | Awaiting ws' \<Rightarrow> isFetching w' = isFetching w)"
  by (cases ws) auto

lemma run_clears_flag: "\<not> isFetching (snd (run site net ws w))"
proof (induction site net ws w rule: run.induct)
  case (3 site net url m rest w)
  obtain now r where nr: "net (length (fetchAttempts w)) url m = (now, r)"
    by (cases "net (length (fetchAttempts w)) url m")
  obtain res w1 where ts: "try_source site now r url m w = (res, w1)"
    by (cases "try_source site now r url m w")
  show ?case
  proof (cases res)
    case None
    with 3 nr ts show ?thesis by simp
  next
    case (Some css)
    with try_source_flag [OF ts] nr ts show ?thesis by simp
  qed
qed simp_all

lemma begin_returned_flag:
  assumes "fetchCSS_begin site now w = (Returned v, w')" and "\<not> isFetching w"
  shows "\<not> isFetching w'"
proof -
  obtain c w1 where g: "getFromCache site now (w\<lparr>isFetching := True, fetchAttempts := []\<rparr>) = (c, w1)"
    by (cases "getFromCache site now (w\<lparr>isFetching := True, fetchAttempts := []\<rparr>)")
  show ?thesis
  proof (cases "truthy c")
    case True
    with assms g show ?thesis by (auto simp: fetchCSS_begin_def)
  next
    case False
    with assms g have "advance (schedule (getOptimizedCDNOrder site w1)) w1 = (Returned v, w')"
      by (simp add: fetchCSS_begin_def)
    from advance_flag [OF this] show ?thesis by simp
  qed
qed

lemma begin_awaiting_flag:
  assumes "fetchCSS_begin site now w = (Awaiting ws, w')"
  shows "isFetching w'"
proof -
  from assms have nf: "\<not> isFetching w"
    by (auto simp: fetchCSS_begin_def split: if_splits)
  obtain c w1 where g: "getFromCache site now (w\<lparr>isFetching := True, fetchAttempts := []\<rparr>) = (c, w1)"
    by (cases "getFromCache site now (w\<lparr>isFetching := True, fetchAttempts := []\<rparr>)")
  from getFromCache_keeps [OF g] have f1: "isFetching w1" by simp
  from assms nf g have a: "advance (schedule (getOptimizedCDNOrder site w1)) w1 = (Awaiting ws, w')"
    by (auto simp: fetchCSS_begin_def split: if_splits)
  from advance_flag [OF a] f1 show ?thesis by simp
qed

lemma resume_flag:
  assumes "fetchCSS_resume site ev ws w = (out, w')" and "isFetching w"
  shows "(case out of Returned v \<Rightarrow> \<not> isFetching w' | Awaiting ws' \<Rightarrow> isFetching w')"
proof (cases "(site, ev, ws, w)" rule: fetchCSS_resume.cases)
  case (1 site0 now r url m rest w0)
  obtain res w1 where ts: "try_source site now r url m w = (res, w1)"
    by (cases "try_source site now r url m w")
  show ?thesis
  proof (cases res)
    case None
    with 1 assms ts have b: "advance rest w1 = (out, w')" by simp
    from try_source_flag [OF ts] None assms(2) have "isFetching w1" by simp
    with advance_flag [OF b] show ?thesis by (cases out) simp_all
  next
    case (Some css)
    with 1 assms ts try_source_flag [OF ts] show ?thesis by auto
  qed
next
  case (2 site0 d rest w0)
  with assms have "advance rest w = (out, w')" by simp
  from advance_flag [OF this] assms(2) show ?thesis by (cases out) simp_all
qed (use assms in auto)

lemma in_flight_flag: "in_flight site ws w \<Longrightarrow> isFetching w"
proof (induction rule: in_flight.induct)
  case (started now w ws w')
  then show ?case by (rule begin_awaiting_flag)
next
  case (resumed ws w ev ws' w')
  with resume_flag [of site ev ws w "Awaiting ws'" w'] show ?case by simp
next
  case (called ws w now out w')
  then show ?case by (simp add: fetchCSS_begin_def)
next
  case (interleaved ws w w')
  then show ?case by simp
qed

lemma fetchCSS_clears_flag:
  assumes "\<not> isFetching w"
  shows "\<not> isFetching (snd (fetchCSS_v4 site net now w))"
proof -
  obtain out w1 where b: "fetchCSS_begin site now w = (out, w1)"
    by (cases "fetchCSS_begin site now w")
  show ?thesis
  proof (cases out)
    case (Returned v)
    with b begin_returned_flag [of site now w v w1] assms show ?thesis
      by (simp add: fetchCSS_v4_def)
  next
    case (Awaiting ws)
    with b run_clears_flag [of site net ws w1] show ?thesis
      by (simp add: fetchCSS_v4_def)
  qed
qed

lemma schedule_unfold: "schedule urls = pass urls @ Backoff 1000 # pass urls"
  by (simp add: schedule_def MAX_RETRIES_v4_def upt_rec)

lemma pass_Cons: "pass (url # urls) = Attempt url Fetch # Attempt url Xhr # pass urls"
  by (simp add: pass_def methods_def)

lemma schedule_Cons:
  "schedule (url # urls) =
     Attempt url Fetch # Attempt url Xhr # pass urls @ Backoff 1000 # pass (url # urls)"
  by (simp add: schedule_unfold pass_Cons)

lemma begin_fresh:
  "fetchCSS_begin chatgpt_v4 0 fresh_v4 =
     (Awaiting (schedule (cdnURLs chatgpt_v4)), fresh_v4\<lparr>isFetching := True\<rparr>)"
  by (simp add: fetchCSS_begin_def fresh_v4_def getFromCache_def getItem_def empty_storage_def
        getOptimizedCDNOrder_def schedule_Cons chatgpt_v4_def)

lemma resume_first:
  "fetchCSS_resume chatgpt_v4 (Reply 5 Rejected) (schedule (cdnURLs chatgpt_v4))
     (fresh_v4\<lparr>isFetching := True\<rparr>) =
   (Awaiting (tl (schedule (cdnURLs chatgpt_v4))), mid_flight_v4)"
  by (simp add: mid_flight_v4_def begin_fresh)
     (simp add: schedule_Cons chatgpt_v4_def try_source_def fetchFromURL_def receive_def)

lemma mid_flight: "in_flight chatgpt_v4 (tl (schedule (cdnURLs chatgpt_v4))) mid_flight_v4"
  using in_flight.resumed [OF in_flight.started [OF begin_fresh] resume_first] .

text \<open>
  C10. A \<open>fetchCSS\<close> call of version 4.0 that finds the flag set returns \<open>null\<close> and
  leaves the state as it is. Every other call ends with the flag cleared, whichever way
  it returns: a cache hit, a successful request or exhaustion of the whole schedule; and
  so does every single return of the suspended call. The call that follows a completed
  cycle is therefore not turned away.
\<close>

theorem flag_cleared_on_every_return:
  "(isFetching wa \<longrightarrow> fetchCSS_v4 site net now wa = (None, wa)) \<and>
   (\<not> isFetching wb \<longrightarrow> \<not> isFetching (snd (fetchCSS_v4 site net now wb))) \<and>
   (\<not> isFetching wc \<and> fetchCSS_begin site now wc = (Returned vc, wc') \<longrightarrow> \<not> isFetching wc') \<and>
   (isFetching wd \<and> fetchCSS_resume site ev ws wd = (Returned vd, wd') \<longrightarrow> \<not> isFetching wd')"
proof (intro conjI impI)
  assume "isFetching wa"
  then show "fetchCSS_v4 site net now wa = (None, wa)"
    by (simp add: fetchCSS_v4_def fetchCSS_begin_def)
next
  assume "\<not> isFetching wb"
  then show "\<not> isFetching (snd (fetchCSS_v4 site net now wb))"
    by (rule fetchCSS_clears_flag)
next
  assume "\<not> isFetching wc \<and> fetchCSS_begin site now wc = (Returned vc, wc')"
  then show "\<not> isFetching wc'"
    using begin_returned_flag by blast
next
  assume "isFetching wd \<and> fetchCSS_resume site ev ws wd = (Returned vd, wd')"
  with resume_flag [of site ev ws wd "Returned vd" wd'] show "\<not> isFetching wd'"
    by simp
qed

lemma flag_mid: "isFetching mid_flight_v4"
  using in_flight_flag [OF mid_flight] .

lemma hit_cached:
  "fetchCSS_begin chatgpt_v4 1000 cached_v4 =
     (Returned (Some red_css),
      cached_v4\<lparr>successfulCDN := Some (hd (cdnURLs chatgpt_v4)), cssContent_v4 := Some red_css\<rparr>)"
  by (simp add: fetchCSS_begin_def cached_v4_def saveToCache_def setItem_def fresh_v4_def
        empty_storage_def getFromCache_def getItem_def JSON_parse_def CACHE_DURATION_v4_def
        red_css_def)

lemma resume_success:
  "fetchCSS_resume chatgpt_v4 (Reply 5 (Http 200 red_css)) (schedule (cdnURLs chatgpt_v4))
     (fresh_v4\<lparr>isFetching := True\<rparr>) =
   (Returned (Some red_css),
    snd (try_source chatgpt_v4 5 (Http 200 red_css) (hd (cdnURLs chatgpt_v4)) Fetch
           (fresh_v4\<lparr>isFetching := True\<rparr>)))"
  by (simp add: schedule_Cons chatgpt_v4_def try_source_def fetchFromURL_def receive_def ok_def
        red_css_def trim_def is_space_def)

theorem flag_cleared_on_every_return_witness:
  "isFetching mid_flight_v4 \<and>
   fetchCSS_v4 chatgpt_v4 offline_v4 9 mid_flight_v4 = (None, mid_flight_v4) \<and>
   \<not> isFetching fresh_v4 \<and>
   \<not> isFetching (snd (fetchCSS_v4 chatgpt_v4 offline_v4 9 fresh_v4)) \<and>
   \<not> isFetching cached_v4 \<and>
   fetchCSS_begin chatgpt_v4 1000 cached_v4 =
     (Returned (Some red_css),
      cached_v4\<lparr>successfulCDN := Some (hd (cdnURLs chatgpt_v4)), cssContent_v4 := Some red_css\<rparr>) \<and>
   \<not> isFetching
       (cached_v4\<lparr>successfulCDN := Some (hd (cdnURLs chatgpt_v4)), cssContent_v4 := Some red_css\<rparr>) \<and>
   isFetching (fresh_v4\<lparr>isFetching := True\<rparr>) \<and>
   fetchCSS_resume chatgpt_v4 (Reply 5 (Http 200 red_css)) (schedule (cdnURLs chatgpt_v4))
     (fresh_v4\<lparr>isFetching := True\<rparr>) =
   (Returned (Some red_css),
    snd (try_source chatgpt_v4 5 (Http 200 red_css) (hd (cdnURLs chatgpt_v4)) Fetch
           (fresh_v4\<lparr>isFetching := True\<rparr>))) \<and>
   \<not> isFetching
       (snd (try_source chatgpt_v4 5 (Http 200 red_css) (hd (cdnURLs chatgpt_v4)) Fetch
               (fresh_v4\<lparr>isFetching := True\<rparr>)))"
proof -
  have a: "\<not> isFetching fresh_v4" "\<not> isFetching cached_v4"
    by (simp_all add: fresh_v4_def cached_v4_def saveToCache_def setItem_def empty_storage_def)
  have b: "isFetching (fresh_v4\<lparr>isFetching := True\<rparr>)"
    by simp
  note T = flag_cleared_on_every_return
    [where wa = mid_flight_v4 and site = chatgpt_v4 and net = offline_v4 and now = 9
       and wb = fresh_v4]
  note U = flag_cleared_on_every_return
    [where site = chatgpt_v4 and now = 1000 and wc = cached_v4 and vc = "Some red_css"
       and wc' = "cached_v4\<lparr>successfulCDN := Some (hd (cdnURLs chatgpt_v4)),
                            cssContent_v4 := Some red_css\<rparr>"
       and wd = "fresh_v4\<lparr>isFetching := True\<rparr>"
       and ev = "Reply 5 (Http 200 red_css)" and ws = "schedule (cdnURLs chatgpt_v4)"
       and vd = "Some red_css"
       and wd' = "snd (try_source chatgpt_v4 5 (Http 200 red_css) (hd (cdnURLs chatgpt_v4)) Fetch
                         (fresh_v4\<lparr>isFetching := True\<rparr>))"]
  from T flag_mid have c1: "fetchCSS_v4 chatgpt_v4 offline_v4 9 mid_flight_v4 = (None, mid_flight_v4)"
    by blast
  from T a(1) have c2: "\<not> isFetching (snd (fetchCSS_v4 chatgpt_v4 offline_v4 9 fresh_v4))"
    by blast
  from U a(2) hit_cached
  have c3: "\<not> isFetching (cached_v4\<lparr>successfulCDN := Some (hd (cdnURLs chatgpt_v4)),
                                      cssContent_v4 := Some red_css\<rparr>)"
    by blast
  from U b resume_success
  have c4: "\<not> isFetching (snd (try_source chatgpt_v4 5 (Http 200 red_css)
                                   (hd (cdnURLs chatgpt_v4)) Fetch (fresh_v4\<lparr>isFetching := True\<rparr>)))"
    by blast
  from flag_mid c1 a c2 hit_cached c3 b resume_success c4 show ?thesis
    by (intro conjI)
qed

section \<open>The loading flag of version 3.0\<close>

text \<open>
  No step of a suspended \<open>apply\<close> that leaves it suspended touches \<open>state.isLoading\<close>: the
  fetchers, the cache and the injection methods assign other fields. The flag set at the
  start is therefore still set at every stage.
\<close>

lemma setValue_flag: "isLoading (snd (setValue key val w)) = isLoading w"
  by (simp add: setValue_def safeCall_def split: option.split sum.split)

lemma keep_css_flag: "isLoading (keep_css site later css status w) = isLoading w"
  by (simp add: keep_css_def Let_def setCachedCSS_v3_def setValue_flag split: option.split)

lemma external_flag:
  "try_external site w = (Suspended st, w') \<Longrightarrow> isLoading w' = isLoading w"
  by (auto simp: try_external_def failed_def Let_def split: if_splits)

lemma style_flag:
  "try_style site w = (Suspended st, w') \<Longrightarrow> isLoading w' = isLoading w"
  by (auto simp: try_style_def injectViaStyle_def applied_def Let_def dest: external_flag
        split: if_splits)

lemma blob_flag:
  "try_blob site u w = (Suspended st, w') \<Longrightarrow> isLoading w' = isLoading w"
  by (auto simp: try_blob_def Let_def dest: style_flag split: if_splits)

lemma inject_flag:
  "inject_from site u w = (Suspended st, w') \<Longrightarrow> isLoading w' = isLoading w"
  by (auto simp: inject_from_def failed_def dest: blob_flag split: if_splits)

lemma fetched_flag:
  "fetched site u later css status w = (Suspended st, w') \<Longrightarrow> isLoading w' = isLoading w"
  using inject_flag [of site u "keep_css site later css status w" st w']
  by (simp add: fetched_def keep_css_flag)

lemma fallback_flag:
  "await_fallback i ts w = (Suspended st, w') \<Longrightarrow> isLoading w' = isLoading w"
  by (cases ts) (auto simp: failed_def)

lemma enter_fallback_flag:
  "enter_fallback site w = (Suspended st, w') \<Longrightarrow> isLoading w' = isLoading w"
  by (auto simp: enter_fallback_def failed_def split: if_splits)

lemma primary_flag:
  "await_primary site i ts w = (Suspended st, w') \<Longrightarrow> isLoading w' = isLoading w"
  by (cases ts) (auto dest: enter_fallback_flag)

lemma proxies_flag:
  "enter_proxies site w = (Suspended st, w') \<Longrightarrow> isLoading w' = isLoading w"
  by (auto simp: enter_proxies_def)

lemma github_flag:
  "enter_github site w = (Suspended st, w') \<Longrightarrow> isLoading w' = isLoading w"
  by (auto simp: enter_github_def dest: proxies_flag split: if_splits)

lemma await_berry_flag:
  "await_berry site i w = (Suspended st, w') \<Longrightarrow> isLoading w' = isLoading w"
  by (auto simp: await_berry_def split: if_splits)

lemma berry_flag:
  "enter_berry site w = (Suspended st, w') \<Longrightarrow> isLoading w' = isLoading w"
  by (auto simp: enter_berry_def dest: await_berry_flag split: if_splits)

lemma fetch_flag:
  "enter_fetch site u now w = (Suspended st, w') \<Longrightarrow> isLoading w' = isLoading w"
  by (auto simp: enter_fetch_def Let_def dest: inject_flag berry_flag split: if_splits)

lemma resume_flag_v3:
  "apply_resume site u e st w = (Suspended st', w') \<Longrightarrow> isLoading w' = isLoading w"
proof (induction site u e st w rule: apply_resume.induct)
  case (1 site blobUrl now w)
  then show ?case by (auto dest: fetch_flag inject_flag split: if_splits)
next
  case (2 site blobUrl later r w)
  then show ?case by (auto dest: fetched_flag berry_flag split: option.splits)
next
  case (3 site blobUrl later r i w)
  then show ?case by (auto dest: fetched_flag await_berry_flag split: option.splits)
next
  case (4 site blobUrl later r w)
  then show ?case by (auto dest: fetched_flag split: option.splits)
next
  case (5 site blobUrl later r w)
  then show ?case by (auto dest: fetched_flag github_flag split: option.splits)
next
  case (6 site blobUrl later r w)
  then show ?case by (auto dest: fetched_flag proxies_flag split: option.splits)
next
  case (7 site blobUrl later r i proxyUrl rest w)
  then show ?case by (auto dest: fetched_flag primary_flag split: option.splits)
next
  case (8 site blobUrl later r i proxyUrl rest w)
  then show ?case by (auto dest: fetched_flag fallback_flag split: option.splits)
next
  case (9 site blobUrl e link w)
  then show ?case
    by (auto simp: applied_def dest: style_flag split: load_event.splits if_splits)
next
  case (10 site blobUrl e link w)
  then show ?case by (auto simp: applied_def failed_def split: load_event.splits)
qed simp_all

lemma begin_flag_v3: "apply_begin site now w = (Suspended st, w') \<Longrightarrow> isLoading w'"
  by (auto simp: apply_begin_def split: if_splits)

lemma begin_loading: "isLoading w \<Longrightarrow> apply_begin site now w = (Finished False, w)"
  by (simp add: apply_begin_def)

lemma in_flight_v3_flag: "in_flight_v3 site st w \<Longrightarrow> isLoading w"
proof (induction rule: in_flight_v3.induct)
  case (started_v3 now w st w')
  then show ?case by (rule begin_flag_v3)
next
  case (resumed_v3 st w blobUrl e st' w')
  then show ?case using resume_flag_v3 by blast
next
  case (called_v3 st w now out w')
  then show ?case using begin_loading [of w site now] by simp
next
  case (interleaved_v3 st w w')
  then show ?case by simp
qed

text \<open>
  The call resumed event by event and \<open>apply\<close> in one piece are one program: \<open>drive\<close>
  from each place of the code is the rest of \<open>apply_v3\<close> from that place.
\<close>

lemma detach_append: "head d \<noteq> None \<Longrightarrow> detach e (append_head e d) = d"
  by (cases "head d") (simp_all add: detach_def append_head_def)

lemma drive_failed: "drive site net ev now later (failed w) = (False, w\<lparr>isLoading := False\<rparr>)"
  by (simp add: failed_def)

lemma drive_applied:
  "drive site net ev now later (applied name w) =
     (True, w\<lparr>appliedMethod := Some name, isLoading := False\<rparr>)"
  by (simp add: applied_def)

lemma drive_external:
  "drive site net ev now later (try_external site w) =
     (case injectViaExternalLink site ev w of
        (True, w3) \<Rightarrow> (True, w3\<lparr>appliedMethod := Some ''external-link'', isLoading := False\<rparr>)
      | (False, w3) \<Rightarrow> (False, w3\<lparr>isLoading := False\<rparr>))"
  by (simp add: try_external_def injectViaExternalLink_def Let_def drive_failed drive_applied
        detach_append split: load_event.split)

lemma drive_style:
  "drive site net ev now later (try_style site w) =
     (case injectViaStyle site w of
        (True, w2) \<Rightarrow> (True, w2\<lparr>appliedMethod := Some ''style-element'', isLoading := False\<rparr>)
      | (False, w2) \<Rightarrow>
          (case injectViaExternalLink site ev w2 of
             (True, w3) \<Rightarrow>
               (True, w3\<lparr>appliedMethod := Some ''external-link'', isLoading := False\<rparr>)
           | (False, w3) \<Rightarrow> (False, w3\<lparr>isLoading := False\<rparr>)))"
  by (cases "injectViaStyle site w")
     (simp add: try_style_def drive_applied drive_external split: bool.split)

lemma methods_unfold:
  "(case inject_methods site ev w of
      (Inl e, w2) \<Rightarrow> (False, w2\<lparr>isLoading := False\<rparr>)
    | (Inr b, w2) \<Rightarrow> (b, w2)) =
   (case injectViaBlob site ev w of
      (True, w1) \<Rightarrow> (True, w1\<lparr>appliedMethod := Some ''blob-link'', isLoading := False\<rparr>)
    | (False, w1) \<Rightarrow> drive site net ev now later (try_style site w1))"
  by (simp add: inject_methods_def drive_style split: prod.split bool.split)

lemma drive_blob:
  "drive site net ev now later (try_blob site (object_url ev) w) =
     (case inject_methods site ev w of
        (Inl e, w2) \<Rightarrow> (False, w2\<lparr>isLoading := False\<rparr>)
      | (Inr b, w2) \<Rightarrow> (b, w2))"
  unfolding methods_unfold [of site ev w net now later]
  by (simp add: try_blob_def injectViaBlob_def Let_def drive_applied detach_append
        split: load_event.split)

lemma drive_inject:
  "drive site net ev now later (inject_from site (object_url ev) w) =
     apply_after_fetch site ev (Inr css, w)"
  by (simp add: inject_from_def apply_after_fetch_def drive_failed drive_blob)

lemma drive_fetched:
  "drive site net ev now later (fetched site (object_url ev) later css status w) =
     apply_after_fetch site ev (Inr css, keep_css site later css status w)"
  by (simp add: fetched_def drive_inject)


lemma after_fetch_failed:
  "apply_after_fetch site ev (Inl e, w) = (False, w\<lparr>isLoading := False\<rparr>)"
  by (simp add: apply_after_fetch_def)

lemma fallback_skip:
  "checked_body (net (FallbackProxy i t)) = None \<Longrightarrow>
   (case fallback_proxies net i (t # ts) of
      Inr (Some css) \<Rightarrow> A css | Inr None \<Rightarrow> B | Inl e \<Rightarrow> B) =
   (case fallback_proxies net (i + 1) ts of
      Inr (Some css) \<Rightarrow> A css | Inr None \<Rightarrow> B | Inl e \<Rightarrow> B)"
  by (cases "net (FallbackProxy i t)"; cases ts)
     (auto simp: checked_body_def split: if_splits)

lemma drive_fallback:
  "drive site net ev now later (await_fallback i ts w) =
     apply_after_fetch site ev
       (case fallback_proxies net i ts of
          Inr (Some css) \<Rightarrow> (Inr css, keep_css site later css (Some ''cors_proxy'') w)
        | Inr None \<Rightarrow> (Inl FetchExhausted, w)
        | Inl e \<Rightarrow> (Inl FetchExhausted, w))"
proof (induction ts arbitrary: i)
  case Nil
  then show ?case by (simp add: drive_failed after_fetch_failed)
next
  case (Cons t ts)
  show ?case
  proof (cases "checked_body (net (FallbackProxy i t))")
    case None
    note skip = fallback_skip [where net = net and i = i and t = t and ts = ts
        and A = "\<lambda>css. (Inr css, keep_css site later css (Some ''cors_proxy'') w)"
        and B = "(Inl FetchExhausted, w)", OF None]
    from None Cons.IH [of "i + 1"] show ?thesis
      unfolding skip by simp
  next
    case (Some css)
    then have "fallback_proxies net i (t # ts) = Inr (Some css)"
      by (cases "net (FallbackProxy i t)") (auto simp: checked_body_def split: if_splits)
    with Some show ?thesis by (simp add: drive_fetched)
  qed
qed

lemma drive_enter_fallback:
  "drive site net ev now later (enter_fallback site w) =
     apply_after_fetch site ev
       (if truthy (fallbackURL site) then
          (case fallback_proxies net 0
                  [CorsProxy (the (fallbackURL site)), CodeTabs (the (fallbackURL site)),
                   AllOrigins (the (fallbackURL site))] of
             Inr (Some css) \<Rightarrow> (Inr css, keep_css site later css (Some ''cors_proxy'') w)
           | Inr None \<Rightarrow> (Inl FetchExhausted, w)
           | Inl e \<Rightarrow> (Inl FetchExhausted, w))
        else (Inl FetchExhausted, w))"
  by (simp add: enter_fallback_def drive_fallback drive_failed after_fetch_failed
        del: fallback_proxies.simps await_fallback.simps)

lemma drive_primary:
  "drive site net ev now later (await_primary site i ts w) =
     (case primary_proxies net i ts of
        Some css \<Rightarrow>
          apply_after_fetch site ev (Inr css, keep_css site later css (Some ''cors_proxy'') w)
      | None \<Rightarrow> drive site net ev now later (enter_fallback site w))"
proof (induction ts arbitrary: i)
  case Nil
  then show ?case by simp
next
  case (Cons t ts)
  show ?case
  proof (cases "checked_body (net (PrimaryProxy i t))")
    case None
    then have "primary_proxies net i (t # ts) = primary_proxies net (i + 1) ts"
      by (cases "net (PrimaryProxy i t)") (auto simp: checked_body_def split: if_splits)
    with None Cons.IH [of "i + 1"] show ?thesis by simp
  next
    case (Some css)
    then have "primary_proxies net i (t # ts) = Some css"
      by (cases "net (PrimaryProxy i t)") (auto simp: checked_body_def split: if_splits)
    with Some show ?thesis by (simp add: drive_fetched)
  qed
qed

lemma drive_proxies:
  "drive site net ev now later (enter_proxies site w) =
     apply_after_fetch site ev
       (case fetchViaCORSProxy site net of
          Inr css \<Rightarrow> (Inr css, keep_css site later css (Some ''cors_proxy'') w)
        | Inl proxyError \<Rightarrow> (Inl FetchExhausted, w))"
  unfolding enter_proxies_def drive_primary drive_enter_fallback fetchViaCORSProxy_def
  by (simp split: option.split sum.split
        del: fallback_proxies.simps primary_proxies.simps)

lemma drive_github:
  "drive site net ev now later (enter_github site w) =
     apply_after_fetch site ev
       (case (if truthy (fallbackURL site) then fetchGitHubFallback site net
              else Inl FetchExhausted) of
          Inr css \<Rightarrow> (Inr css, keep_css site later css (Some ''github_fallback'') w)
        | Inl githubError \<Rightarrow>
            (case fetchViaCORSProxy site net of
               Inr css \<Rightarrow> (Inr css, keep_css site later css (Some ''cors_proxy'') w)
             | Inl proxyError \<Rightarrow> (Inl FetchExhausted, w)))"
proof (cases "truthy (fallbackURL site)")
  case False
  then show ?thesis by (simp add: enter_github_def drive_proxies)
next
  case True
  show ?thesis
  proof (cases "checked_body (net (GitHubFetch (the (fallbackURL site))))")
    case None
    with True have "\<exists>e. fetchGitHubFallback site net = Inl e"
      by (cases "net (GitHubFetch (the (fallbackURL site)))")
         (auto simp: checked_body_def fetchGitHubFallback_def split: if_splits)
    with None True show ?thesis by (auto simp: enter_github_def drive_proxies)
  next
    case (Some css)
    with True have "fetchGitHubFallback site net = Inr css"
      by (cases "net (GitHubFetch (the (fallbackURL site)))")
         (auto simp: checked_body_def fetchGitHubFallback_def split: if_splits)
    with Some True show ?thesis by (simp add: enter_github_def drive_fetched)
  qed
qed

lemma drive_direct:
  "drive site net ev now later (Suspended ForDirect, w) =
     apply_after_fetch site ev (fetch_standard site net later w)"
proof (cases "checked_body (net (DirectFetch (styleURL_v3 site)))")
  case None
  then have "\<exists>e. fetchDirect site net = Inl e"
    by (cases "net (DirectFetch (styleURL_v3 site))")
       (auto simp: checked_body_def fetchDirect_def split: if_splits)
  with None show ?thesis
    by (auto simp: fetch_standard_def drive_github)
next
  case (Some css)
  then have "fetchDirect site net = Inr css"
    by (cases "net (DirectFetch (styleURL_v3 site))")
       (auto simp: checked_body_def fetchDirect_def split: if_splits)
  with Some show ?thesis by (simp add: fetch_standard_def drive_fetched)
qed


lemma strategies_step:
  "berry_strategies site net i (Suc n) =
     (case unchecked_body (net (BerryStrategy i (styleURL_v3 site))) of
        Some css \<Rightarrow> Some css
      | None \<Rightarrow> berry_strategies site net (i + 1) n)"
  by (cases "net (BerryStrategy i (styleURL_v3 site))") (simp_all add: unchecked_body_def)

lemma drive_berry_github:
  "drive site net ev now later
     (if truthy (fallbackURL site) then (Suspended ForBerryGitHub, w)
      else (Suspended ForDirect, w)) =
   apply_after_fetch site ev
     (if truthy (fallbackURL site) then
        (case unchecked_body (net (BerryGitHub (the (fallbackURL site)))) of
           Some css \<Rightarrow>
             (Inr css, keep_css site later css None (w\<lparr>cdnStatus := ''github_fallback_berry''\<rparr>))
         | None \<Rightarrow> fetch_standard site net later w)
      else fetch_standard site net later w)"
  by (simp add: drive_direct drive_fetched
        drive.simps(2) [of site net ev now later ForBerryGitHub]
        split: option.split del: drive.simps)

lemma drive_await_berry:
  "i + n = 4 \<Longrightarrow>
   drive site net ev now later (await_berry site i w) =
     (case berry_strategies site net i n of
        Some css \<Rightarrow> apply_after_fetch site ev (Inr css, keep_css site later css None w)
      | None \<Rightarrow>
          drive site net ev now later
            (if truthy (fallbackURL site) then (Suspended ForBerryGitHub, w)
             else (Suspended ForDirect, w)))"
proof (induction n arbitrary: i)
  case 0
  then show ?case by (simp add: await_berry_def)
next
  case (Suc n)
  then have i: "i < 4" and n: "(i + 1) + n = 4" by simp_all
  from i have "drive site net ev now later (await_berry site i w) =
      drive site net ev now later
        (apply_resume site (object_url ev)
           (Answer later (net (BerryStrategy i (styleURL_v3 site)))) (ForBerry i) w)"
    by (simp add: await_berry_def)
  also have "\<dots> =
      (case unchecked_body (net (BerryStrategy i (styleURL_v3 site))) of
         Some css \<Rightarrow> apply_after_fetch site ev (Inr css, keep_css site later css None w)
       | None \<Rightarrow> drive site net ev now later (await_berry site (i + 1) w))"
    by (simp add: drive_fetched split: option.split)
  finally show ?case
    unfolding strategies_step Suc.IH [OF n]
    by (simp split: option.split)
qed

lemma drive_berry:
  "drive site net ev now later (enter_berry site w) =
     apply_after_fetch site ev (fetch_berry site net later w)"
proof (cases "isBerryBrowser_v3 w")
  case False
  then show ?thesis by (simp add: enter_berry_def fetch_berry_def drive_direct del: drive.simps)
next
  case True
  let ?w1 = "w\<lparr>cdnStatus := ''berry_optimized''\<rparr>"
  have g: "(case net (BerryGitHub (the (fallbackURL site))) of
              Http status css \<Rightarrow>
                if css \<noteq> [] \<and> length (trim css) > 10
                then (Inr css, ?w1\<lparr>cdnStatus := ''github_fallback_berry''\<rparr>)
                else (Inl FetchExhausted, ?w1)
            | _ \<Rightarrow> (Inl FetchExhausted, ?w1)) =
           (case unchecked_body (net (BerryGitHub (the (fallbackURL site)))) of
              Some css \<Rightarrow> (Inr css, ?w1\<lparr>cdnStatus := ''github_fallback_berry''\<rparr>)
            | None \<Rightarrow> (Inl FetchExhausted, ?w1))"
    by (cases "net (BerryGitHub (the (fallbackURL site)))") (simp_all add: unchecked_body_def)
  from True have "drive site net ev now later (enter_berry site w) =
      drive site net ev now later (await_berry site 0 ?w1)"
    by (simp add: enter_berry_def)
  also have "\<dots> =
      (case berry_strategies site net 0 4 of
         Some css \<Rightarrow> apply_after_fetch site ev (Inr css, keep_css site later css None ?w1)
       | None \<Rightarrow>
           drive site net ev now later
             (if truthy (fallbackURL site) then (Suspended ForBerryGitHub, ?w1)
              else (Suspended ForDirect, ?w1)))"
    by (rule drive_await_berry) simp
  also have "\<dots> =
      (case berry_strategies site net 0 4 of
         Some css \<Rightarrow> apply_after_fetch site ev (Inr css, keep_css site later css None ?w1)
       | None \<Rightarrow>
           apply_after_fetch site ev
             (if truthy (fallbackURL site) then
                (case unchecked_body (net (BerryGitHub (the (fallbackURL site)))) of
                   Some css \<Rightarrow>
                     (Inr css,
                      keep_css site later css None (?w1\<lparr>cdnStatus := ''github_fallback_berry''\<rparr>))
                 | None \<Rightarrow> fetch_standard site net later ?w1)
              else fetch_standard site net later ?w1))"
    by (simp only: drive_berry_github)
  also have "\<dots> = apply_after_fetch site ev (fetch_berry site net later w)"
    using True unfolding fetch_berry_def fetchForBerryBrowser_def Let_def g
    by (simp split: option.split del: berry_strategies.simps)
  finally show ?thesis .
qed

lemma drive_gm:
  "drive site net ev now later (Suspended ForGM, w) =
     apply_after_fetch site ev
       (case fetchViaGM site net of
          Inr css \<Rightarrow> (Inr css, keep_css site later css (Some ''jsdelivr_via_gm'') w)
        | Inl error \<Rightarrow> fetch_berry site net later w)"
proof (cases "checked_body (net (ViaGM (styleURL_v3 site)))")
  case None
  then have "\<exists>e. fetchViaGM site net = Inl e"
    by (cases "net (ViaGM (styleURL_v3 site))")
       (auto simp: checked_body_def fetchViaGM_def split: if_splits)
  with None show ?thesis by (auto simp: drive_berry)
next
  case (Some css)
  then have "fetchViaGM site net = Inr css"
    by (cases "net (ViaGM (styleURL_v3 site))")
       (auto simp: checked_body_def fetchViaGM_def split: if_splits)
  with Some show ?thesis by (simp add: drive_fetched)
qed

lemma drive_fetch:
  "drive site net ev now later (enter_fetch site (object_url ev) now w) =
     apply_after_fetch site ev (fetchExternalCSS site net now later w)"
  by (simp add: enter_fetch_def fetchExternalCSS_def Let_def drive_inject drive_gm drive_berry
        del: drive.simps)

lemma apply_v3_after_fetch:
  "apply_body_v3 site net ev now later w = (r, w1) \<Longrightarrow>
   (case (r, w1) of (Inl error, w1) \<Rightarrow> (False, w1\<lparr>isLoading := False\<rparr>) | (Inr b, w1) \<Rightarrow> (b, w1)) =
   apply_after_fetch site ev
     (if \<not> truthy (cssContent_v3 w) then fetchExternalCSS site net now later w else (Inr [], w))"
  by (auto simp: apply_body_v3_def apply_after_fetch_def split: prod.splits sum.splits if_splits)

lemma apply_v3_is_drive:
  "apply_v3 site net ev now later w = drive site net ev now later (apply_begin site now w)"
proof (cases "\<not> truthy_val (getCurrentSiteEnabled site w) \<or> isLoading w \<or>
              now - lastApplyTime w < 500")
  case True
  then show ?thesis by (auto simp: apply_v3_def apply_begin_def)
next
  case False
  let ?w0 = "(remove_v3 site (w\<lparr>lastApplyTime := now\<rparr>))\<lparr>isLoading := True\<rparr>"
  obtain r w1 where b: "apply_body_v3 site net ev now later ?w0 = (r, w1)"
    by (cases "apply_body_v3 site net ev now later ?w0")
  from False b have "apply_v3 site net ev now later w =
      (case (r, w1) of (Inl error, w1) \<Rightarrow> (False, w1\<lparr>isLoading := False\<rparr>)
       | (Inr b, w1) \<Rightarrow> (b, w1))"
    by (simp add: apply_v3_def)
  also note apply_v3_after_fetch [OF b]
  also have "apply_after_fetch site ev
     (if \<not> truthy (cssContent_v3 ?w0) then fetchExternalCSS site net now later ?w0
      else (Inr [], ?w0)) =
     drive site net ev now later (Suspended ForPage, ?w0)"
    by (simp add: drive_fetch drive_inject [where css = "[]"])
  finally show ?thesis using False by (simp add: apply_begin_def)
qed

lemma begin_fresh_v3:
  "apply_begin chatgpt_v3 1000 fresh_v3 =
     (Suspended ForPage, snd (apply_begin chatgpt_v3 1000 fresh_v3))"
  by (simp add: apply_begin_def getCurrentSiteEnabled_def getValue_def safeCall_def getItem_def
        fresh_v3_def empty_storage_def)

lemma page_fresh_v3:
  "apply_resume chatgpt_v3 ''1'' (PageReady 1000) ForPage
     (snd (apply_begin chatgpt_v3 1000 fresh_v3)) = (Suspended ForDirect, mid_flight_v3)"
proof -
  have "fst (apply_resume chatgpt_v3 ''1'' (PageReady 1000) ForPage
               (snd (apply_begin chatgpt_v3 1000 fresh_v3))) = Suspended ForDirect"
    by (simp add: apply_begin_def getCurrentSiteEnabled_def getValue_def safeCall_def getItem_def
          fresh_v3_def empty_storage_def remove_v3_def Let_def enter_fetch_def
          getCachedCSS_v3_def enter_berry_def)
  then show ?thesis
    by (simp add: mid_flight_v3_def prod_eq_iff)
qed

lemma mid_flight_3: "in_flight_v3 chatgpt_v3 ForDirect mid_flight_v3"
  using in_flight_v3.resumed_v3 [OF in_flight_v3.started_v3 [OF begin_fresh_v3] page_fresh_v3] .

lemma mid_flight_v3_state:
  "fetchAttempts_v3 mid_flight_v3 = 1"
  "truthy_val (getCurrentSiteEnabled chatgpt_v3 mid_flight_v3)"
  "\<not> 2000 - lastApplyTime mid_flight_v3 < 500"
  by (simp_all add: mid_flight_v3_def apply_begin_def getCurrentSiteEnabled_def getValue_def
        safeCall_def getItem_def fresh_v3_def empty_storage_def remove_v3_def Let_def
        enter_fetch_def getCachedCSS_v3_def enter_berry_def)

section \<open>A second call while the first is in flight\<close>

text \<open>
  C3. While a \<open>fetchCSS\<close> call of version 4.0 is in flight, the flag is set, and a
  second call returns \<open>null\<close> at once: it awaits nothing, leaves the state and the
  attempt log as they are, and no request is issued, whatever the network would answer.
  In version 3.0 the fetch runs only inside \<open>styleManager.apply\<close>. An \<open>apply\<close> that passes
  its guards sets \<open>state.isLoading\<close> before its first wait and is in flight from then on;
  at every stage of a call in flight, through the page wait, every request of the fetch
  and the injection, the flag is still set, and a second \<open>apply\<close> returns \<open>false\<close> at once:
  it is suspended at no stage, so it issues no request, and it leaves the state as it is.
  The call resumed stage by stage is \<open>apply\<close> itself.
\<close>

theorem second_call_starts_no_walk:
  "(in_flight site ws w \<longrightarrow>
      isFetching w \<and>
      fetchCSS_begin site now w = (Returned None, w) \<and>
      fetchCSS_v4 site net now w = (None, w)) \<and>
   (truthy_val (getCurrentSiteEnabled sb wa) \<and> \<not> isLoading wa \<and>
    \<not> nowa - lastApplyTime wa < 500 \<longrightarrow>
      in_flight_v3 sb ForPage (snd (apply_begin sb nowa wa))) \<and>
   (in_flight_v3 sb st wb \<longrightarrow>
      isLoading wb \<and>
      apply_begin sb nowb wb = (Finished False, wb) \<and>
      apply_v3 sb netb ev nowb later wb = (False, wb)) \<and>
   apply_v3 sb netb ev nowb later wc = drive sb netb ev nowb later (apply_begin sb nowb wc)"
proof (intro conjI impI)
  assume "in_flight site ws w"
  then have f: "isFetching w" by (rule in_flight_flag)
  then show "isFetching w" .
  from f show "fetchCSS_begin site now w = (Returned None, w)"
    by (simp add: fetchCSS_begin_def)
  from f show "fetchCSS_v4 site net now w = (None, w)"
    by (simp add: fetchCSS_begin_def fetchCSS_v4_def)
next
  assume "truthy_val (getCurrentSiteEnabled sb wa) \<and> \<not> isLoading wa \<and>
          \<not> nowa - lastApplyTime wa < 500"
  then have "apply_begin sb nowa wa = (Suspended ForPage, snd (apply_begin sb nowa wa))"
    by (simp add: apply_begin_def)
  then show "in_flight_v3 sb ForPage (snd (apply_begin sb nowa wa))"
    by (rule in_flight_v3.started_v3)
next
  assume "in_flight_v3 sb st wb"
  then have l: "isLoading wb" by (rule in_flight_v3_flag)
  then show "isLoading wb" .
  from l show "apply_begin sb nowb wb = (Finished False, wb)"
    by (rule begin_loading)
  from l show "apply_v3 sb netb ev nowb later wb = (False, wb)"
    by (simp add: apply_v3_def)
next
  show "apply_v3 sb netb ev nowb later wc = drive sb netb ev nowb later (apply_begin sb nowb wc)"
    by (rule apply_v3_is_drive)
qed

theorem second_call_starts_no_walk_witness:
  "in_flight chatgpt_v4 (tl (schedule (cdnURLs chatgpt_v4))) mid_flight_v4 \<and>
   isFetching mid_flight_v4 \<and>
   fetchCSS_begin chatgpt_v4 9 mid_flight_v4 = (Returned None, mid_flight_v4) \<and>
   fetchCSS_v4 chatgpt_v4 online_v4 9 mid_flight_v4 = (None, mid_flight_v4) \<and>
   (truthy_val (getCurrentSiteEnabled chatgpt_v3 fresh_v3) \<and> \<not> isLoading fresh_v3 \<and>
    \<not> 1000 - lastApplyTime fresh_v3 < 500) \<and>
   in_flight_v3 chatgpt_v3 ForPage (snd (apply_begin chatgpt_v3 1000 fresh_v3)) \<and>
   in_flight_v3 chatgpt_v3 ForDirect mid_flight_v3 \<and>
   fetchAttempts_v3 mid_flight_v3 = 1 \<and>
   truthy_val (getCurrentSiteEnabled chatgpt_v3 mid_flight_v3) \<and>
   \<not> 2000 - lastApplyTime mid_flight_v3 < 500 \<and>
   isLoading mid_flight_v3 \<and>
   apply_begin chatgpt_v3 2000 mid_flight_v3 = (Finished False, mid_flight_v3) \<and>
   apply_v3 chatgpt_v3 always_css all_loaded 2000 2001 mid_flight_v3 = (False, mid_flight_v3)"
proof -
  have g: "truthy_val (getCurrentSiteEnabled chatgpt_v3 fresh_v3)" "\<not> isLoading fresh_v3"
    "\<not> 1000 - lastApplyTime fresh_v3 < 500"
    by (simp_all add: getCurrentSiteEnabled_def getValue_def safeCall_def getItem_def
          fresh_v3_def empty_storage_def)
  note T = second_call_starts_no_walk
    [where site = chatgpt_v4 and ws = "tl (schedule (cdnURLs chatgpt_v4))" and w = mid_flight_v4
       and now = 9 and net = online_v4
       and sb = chatgpt_v3 and wa = fresh_v3 and nowa = 1000
       and st = ForDirect and wb = mid_flight_v3
       and netb = always_css and ev = all_loaded and nowb = 2000 and later = 2001]
  from T mid_flight have a: "isFetching mid_flight_v4"
    "fetchCSS_begin chatgpt_v4 9 mid_flight_v4 = (Returned None, mid_flight_v4)"
    "fetchCSS_v4 chatgpt_v4 online_v4 9 mid_flight_v4 = (None, mid_flight_v4)"
    by blast+
  from T g have b: "in_flight_v3 chatgpt_v3 ForPage (snd (apply_begin chatgpt_v3 1000 fresh_v3))"
    by blast
  from T mid_flight_3 have c: "isLoading mid_flight_v3"
    "apply_begin chatgpt_v3 2000 mid_flight_v3 = (Finished False, mid_flight_v3)"
    "apply_v3 chatgpt_v3 always_css all_loaded 2000 2001 mid_flight_v3 = (False, mid_flight_v3)"
    by blast+
  from mid_flight a g b mid_flight_3 mid_flight_v3_state c show ?thesis
    by (intro conjI)
qed

section \<open>Validation of a fetched body\<close>

lemma trim_Nil: "trim [] = []"
  by (simp add: trim_def)

lemma accepted_v4:
  "fst (fetchFromURL r url m w) = Inr (css, u) \<longleftrightarrow>
     u = url \<and>
     (\<exists>status. r = Http status css \<and> ok status \<and> trim css \<noteq> [] \<and> 10 \<le> length css \<and>
        CHR ''{'' \<in> set css)"
  by (cases r) (auto simp: fetchFromURL_def receive_def trim_Nil split: transport.splits)

lemma rejected_v4:
  "(\<exists>e. fst (fetchFromURL r url m w) = Inl e) \<longleftrightarrow> \<not> usable_v4 r"
  by (cases r) (auto simp: fetchFromURL_def receive_def trim_Nil split: transport.splits)

lemma failure_moves_on:
  assumes "fst (fetchFromURL r url m w) = Inl e"
  shows "fetchCSS_resume site (Reply t r) (Attempt url m # rest) w =
           advance rest (snd (fetchFromURL r url m w))"
  using assms by (cases "fetchFromURL r url m w") (auto simp: try_source_def)

lemma accepted_direct:
  "fetchDirect site net = Inr css \<longleftrightarrow>
     (\<exists>status. net (DirectFetch (styleURL_v3 site)) = Http status css \<and> ok status \<and> trim css \<noteq> [])"
  by (cases "net (DirectFetch (styleURL_v3 site))") (auto simp: fetchDirect_def trim_Nil)

lemma accepted_gm:
  "fetchViaGM site net = Inr css \<longleftrightarrow>
     (\<exists>status. net (ViaGM (styleURL_v3 site)) = Http status css \<and> ok status \<and> trim css \<noteq> [])"
  by (cases "net (ViaGM (styleURL_v3 site))") (auto simp: fetchViaGM_def trim_Nil)

text \<open>
  C4, as stated, fails: \<open>fetchDirect\<close> and \<open>fetchViaGM\<close> of version 3.0 count a response
  with a success status as successful as soon as its body is non-empty after trimming.
  The two-character body below has no brace and is far below any floor.
\<close>

theorem short_body_accepted_v3:
  "fetchDirect chatgpt_v3 tiny_v3 = Inr ''ok'' \<and>
   fetchViaGM chatgpt_v3 tiny_v3 = Inr ''ok'' \<and>
   length ''ok'' < 10 \<and> CHR ''{'' \<notin> set ''ok''"
  by (simp add: fetchDirect_def fetchViaGM_def tiny_v3_def ok_def trim_def is_space_def)

text \<open>
  C4, amended. In version 4.0 \<open>fetchFromURL\<close> counts an attempt as successful exactly when
  the response has a success status and its body is non-empty after trimming, at least 10
  long and contains an opening brace; after any failed attempt the suspended \<open>fetchCSS\<close>
  moves on to what is left of its schedule. In version 3.0 \<open>fetchDirect\<close> and
  \<open>fetchViaGM\<close> succeed exactly when the status is a success status and the body is
  non-empty after trimming.
\<close>

theorem shape_check_in_v4_only:
  "(fst (fetchFromURL r url m w) = Inr (css, u) \<longleftrightarrow>
      u = url \<and>
      (\<exists>status. r = Http status css \<and> ok status \<and> trim css \<noteq> [] \<and> 10 \<le> length css \<and>
         CHR ''{'' \<in> set css)) \<and>
   (fst (fetchFromURL r' url' m' w') = Inl e \<longrightarrow>
      fetchCSS_resume site (Reply t r') (Attempt url' m' # rest) w' =
        advance rest (snd (fetchFromURL r' url' m' w'))) \<and>
   (fetchDirect sb netb = Inr cssb \<longleftrightarrow>
      (\<exists>status. netb (DirectFetch (styleURL_v3 sb)) = Http status cssb \<and> ok status \<and>
         trim cssb \<noteq> [])) \<and>
   (fetchViaGM sb netb = Inr cssb \<longleftrightarrow>
      (\<exists>status. netb (ViaGM (styleURL_v3 sb)) = Http status cssb \<and> ok status \<and>
         trim cssb \<noteq> []))"
  using accepted_v4 [of r url m w css u] failure_moves_on [of r' url' m' w' e site t rest]
        accepted_direct [of sb netb cssb] accepted_gm [of sb netb cssb]
  by blast

theorem shape_check_in_v4_only_witness:
  "fst (fetchFromURL (Http 200 ''no braces here'') (hd (cdnURLs chatgpt_v4)) Fetch fresh_v4) =
     Inl InvalidCSS \<and>
   fetchCSS_resume chatgpt_v4 (Reply 5 (Http 200 ''no braces here''))
     (Attempt (hd (cdnURLs chatgpt_v4)) Fetch # [Attempt (hd (cdnURLs chatgpt_v4)) Xhr]) fresh_v4 =
     advance [Attempt (hd (cdnURLs chatgpt_v4)) Xhr]
       (snd (fetchFromURL (Http 200 ''no braces here'') (hd (cdnURLs chatgpt_v4)) Fetch fresh_v4))"
proof -
  have f: "fst (fetchFromURL (Http 200 ''no braces here'') (hd (cdnURLs chatgpt_v4)) Fetch fresh_v4) =
             Inl InvalidCSS"
    by (simp add: fetchFromURL_def receive_def ok_def trim_def is_space_def)
  note T = shape_check_in_v4_only
    [where r' = "Http 200 ''no braces here''" and url' = "hd (cdnURLs chatgpt_v4)" and m' = Fetch
       and w' = fresh_v4 and e = InvalidCSS and site = chatgpt_v4 and t = 5
       and rest = "[Attempt (hd (cdnURLs chatgpt_v4)) Xhr]"]
  from T f show ?thesis
    by blast
qed

section \<open>Promotion of the successful URL in version 4.0\<close>

lemma indexOf_mem: "x \<in> set xs \<Longrightarrow> 0 \<le> indexOf xs x"
  by (induction xs) (auto simp: Let_def)

lemma indexOf_zero: "indexOf xs x = 0 \<Longrightarrow> xs \<noteq> [] \<and> hd xs = x"
  by (cases xs) (auto simp: Let_def split: if_splits)

lemma promoted_first:
  assumes "successfulCDN w = Some u" and "u \<noteq> []" and "u \<in> set (cdnURLs site)"
  shows "\<exists>rest. getOptimizedCDNOrder site w = u # rest"
proof (cases "indexOf (cdnURLs site) u > 0")
  case True
  with assms show ?thesis by (simp add: getOptimizedCDNOrder_def Let_def)
next
  case False
  with indexOf_mem [OF assms(3)] have z: "indexOf (cdnURLs site) u = 0" by simp
  from indexOf_zero [OF z] obtain rest where "cdnURLs site = u # rest"
    by (cases "cdnURLs site") auto
  with assms z show ?thesis by (simp add: getOptimizedCDNOrder_def Let_def)
qed

lemma getFromCache_miss:
  assumes "fst (getFromCache site now w) = None" and "storage_v4 w' = storage_v4 w"
  shows "getFromCache site now w' = (None, w')"
  using assms
  by (auto simp: getFromCache_def split: sum.splits option.splits jsval.splits if_splits)

lemma try_source_success:
  assumes "try_source site now r url m w = (Some css, w1)"
  shows "fetchAttempts w1 \<noteq> [] \<and> successfulCDN w1 = Some url \<and>
         att_url (last (fetchAttempts w1)) = url \<and> att_success (last (fetchAttempts w1))"
  using assms
  by (auto simp: try_source_def fetchFromURL_def saveToCache_def
           split: sum.splits if_splits prod.splits)

lemma run_success:
  "run site net ws w = (Some css, w1) \<Longrightarrow>
     fetchAttempts w1 \<noteq> [] \<and> att_success (last (fetchAttempts w1)) \<and>
     successfulCDN w1 = Some (att_url (last (fetchAttempts w1)))"
proof (induction site net ws w rule: run.induct)
  case (3 site net url m rest w)
  obtain now r where nr: "net (length (fetchAttempts w)) url m = (now, r)"
    by (cases "net (length (fetchAttempts w)) url m")
  obtain res w2 where ts: "try_source site now r url m w = (res, w2)"
    by (cases "try_source site now r url m w")
  show ?case
  proof (cases res)
    case None
    with 3 nr ts show ?thesis by simp
  next
    case (Some c)
    with 3(2) nr ts have "w2 = w1" "c = css" by simp_all
    with try_source_success [of site now r url m w css w1] ts Some show ?thesis by simp
  qed
qed simp_all

lemma cycle_success:
  assumes "fetchCSS_v4 site net now w = (Some css, w1)" and "fetchAttempts w1 \<noteq> []"
  shows "successfulCDN w1 = Some (att_url (last (fetchAttempts w1)))"
proof -
  from assms(1) have nf: "\<not> isFetching w"
    by (auto simp: fetchCSS_v4_def fetchCSS_begin_def split: if_splits)
  obtain c w0 where g: "getFromCache site now (w\<lparr>isFetching := True, fetchAttempts := []\<rparr>) = (c, w0)"
    by (cases "getFromCache site now (w\<lparr>isFetching := True, fetchAttempts := []\<rparr>)")
  from getFromCache_keeps [OF g] have e: "fetchAttempts w0 = []" by simp
  show ?thesis
  proof (cases "truthy c")
    case True
    with assms nf g e show ?thesis by (auto simp: fetchCSS_v4_def fetchCSS_begin_def)
  next
    case False
    obtain out w2 where a: "advance (schedule (getOptimizedCDNOrder site w0)) w0 = (out, w2)"
      by (cases "advance (schedule (getOptimizedCDNOrder site w0)) w0")
    show ?thesis
    proof (cases out)
      case (Returned v)
      with a have "v = None" by (cases "schedule (getOptimizedCDNOrder site w0)") auto
      with assms nf g False a Returned show ?thesis
        by (simp add: fetchCSS_v4_def fetchCSS_begin_def)
    next
      case (Awaiting ws)
      with assms nf g False a have "run site net ws w2 = (Some css, w1)"
        by (simp add: fetchCSS_v4_def fetchCSS_begin_def)
      from run_success [OF this] show ?thesis by simp
    qed
  qed
qed

lemma promotion:
  assumes cyc: "fetchCSS_v4 site net now w = (Some css, w1)"
    and att: "fetchAttempts w1 \<noteq> []"
    and third: "att_url (last (fetchAttempts w1)) = cdnURLs site ! 2"
    and len: "2 < length (cdnURLs site)"
    and ne: "cdnURLs site ! 2 \<noteq> []"
    and kept: "successfulCDN w2 = successfulCDN w1"
    and idle: "\<not> isFetching w2"
    and miss: "fst (getFromCache site now2 w2) = None"
  shows "\<exists>rest w3. fetchCSS_begin site now2 w2 =
           (Awaiting (Attempt (cdnURLs site ! 2) Fetch # rest), w3)"
proof -
  let ?u = "cdnURLs site ! 2"
  let ?w = "w2\<lparr>isFetching := True, fetchAttempts := []\<rparr>"
  from cycle_success [OF cyc att] third kept have s: "successfulCDN ?w = Some ?u" by simp
  from len have m: "?u \<in> set (cdnURLs site)" by simp
  from promoted_first [OF s ne m] obtain rest where o: "getOptimizedCDNOrder site ?w = ?u # rest" ..
  from getFromCache_miss [OF miss, of ?w] have g: "getFromCache site now2 ?w = (None, ?w)" by simp
  from idle g o show ?thesis
    by (simp add: fetchCSS_begin_def schedule_Cons)
qed

lemma try_source_log:
  "try_source site now r url m w = (res, w') \<Longrightarrow>
     \<exists>a. fetchAttempts w' = fetchAttempts w @ [a] \<and> att_url a = url"
  by (auto simp: try_source_def fetchFromURL_def saveToCache_def
           split: sum.splits if_splits prod.splits)

lemma run_log: "\<exists>ys. fetchAttempts (snd (run site net ws w)) = fetchAttempts w @ ys"
proof (induction site net ws w rule: run.induct)
  case (3 site net url m rest w)
  obtain now r where nr: "net (length (fetchAttempts w)) url m = (now, r)"
    by (cases "net (length (fetchAttempts w)) url m")
  obtain res w1 where ts: "try_source site now r url m w = (res, w1)"
    by (cases "try_source site now r url m w")
  from try_source_log [OF ts] obtain a where a: "fetchAttempts w1 = fetchAttempts w @ [a]" by blast
  show ?case
  proof (cases res)
    case None
    from 3 [OF nr [symmetric] ts [symmetric] None]
    obtain ys where "fetchAttempts (snd (run site net rest w1)) = fetchAttempts w1 @ ys" ..
    with nr ts None a show ?thesis by simp
  next
    case (Some css)
    with nr ts a show ?thesis by simp
  qed
qed simp_all

lemma run_first:
  assumes "fetchAttempts w = []"
  shows "fetchAttempts (snd (run site net (Attempt url m # rest) w)) \<noteq> [] \<and>
         att_url (hd (fetchAttempts (snd (run site net (Attempt url m # rest) w)))) = url"
proof -
  obtain now r where nr: "net (length (fetchAttempts w)) url m = (now, r)"
    by (cases "net (length (fetchAttempts w)) url m")
  obtain res w1 where ts: "try_source site now r url m w = (res, w1)"
    by (cases "try_source site now r url m w")
  from try_source_log [OF ts] assms obtain a where a: "fetchAttempts w1 = [a]" "att_url a = url"
    by auto
  show ?thesis
  proof (cases res)
    case None
    from run_log [of site net rest w1] a
    obtain ys where "fetchAttempts (snd (run site net rest w1)) = a # ys" by auto
    with nr ts None a show ?thesis by simp
  next
    case (Some css)
    with nr ts a show ?thesis by simp
  qed
qed

lemma inject_log: "fetchAttempts (snd (inject site css w)) = fetchAttempts w"
  by (simp add: inject_def remove_v4_def Let_def)

lemma loadAndApply_log:
  "fetchAttempts (snd (loadAndApplyCSS site net now loading w)) =
     fetchAttempts (snd (fetchCSS_v4 site net now w))"
  by (cases "fetchCSS_v4 site net now w") (simp add: loadAndApplyCSS_def Let_def inject_log)

lemma refresh_first:
  assumes "\<not> denied (storage_v4 w)" and "isEnabled w" and "\<not> isFetching w"
    and "cdnURLs site = url # urls"
  shows "fetchAttempts (snd (refresh site net now loading w)) \<noteq> [] \<and>
         att_url (hd (fetchAttempts (snd (refresh site net now loading w)))) = url"
proof -
  let ?key = "CACHE_KEY_PREFIX_v4 @ name_v4 site"
  let ?w2 = "remove_v4 site
               (w\<lparr>storage_v4 := (storage_v4 w)\<lparr>items := (items (storage_v4 w))(?key := None)\<rparr>,
                  successfulCDN := None, cssContent_v4 := None\<rparr>)"
  let ?w3 = "?w2\<lparr>isFetching := True, fetchAttempts := []\<rparr>"
  from assms have r: "refresh site net now loading w = loadAndApplyCSS site net now loading ?w2"
    by (simp add: refresh_def removeItem_def remove_v4_def Let_def)
  from assms have g: "getFromCache site now ?w3 = (None, ?w3)"
    by (simp add: getFromCache_def getItem_def remove_v4_def)
  from assms have o: "getOptimizedCDNOrder site ?w3 = url # urls"
    by (simp add: getOptimizedCDNOrder_def remove_v4_def)
  from assms g o have f: "fetchCSS_v4 site net now ?w2 =
      run site net (Attempt url Fetch # Attempt url Xhr # pass urls @ Backoff 1000 # pass (url # urls)) ?w3"
    by (simp add: fetchCSS_v4_def fetchCSS_begin_def remove_v4_def schedule_Cons)
  have e: "fetchAttempts ?w3 = []" by simp
  from run_first [OF e] r f loadAndApply_log [of site net now loading ?w2] show ?thesis
    by simp
qed

lemmas v4_eval =
  fetchCSS_v4_def fetchCSS_begin_def getFromCache_def getItem_def setItem_def removeItem_def
  JSON_parse_def saveToCache_def getOptimizedCDNOrder_def schedule_Cons pass_Cons try_source_def
  fetchFromURL_def receive_def ok_def trim_def is_space_def refresh_def loadAndApplyCSS_def
  inject_def remove_v4_def remove_first_def children_def append_head_def
  CACHE_KEY_PREFIX_v4_def CACHE_DURATION_v4_def

lemma first_cycle:
  "fetchCSS_v4 chatgpt_v4 third_only 0 fresh_v4 =
     (Some red_css,
      fresh_v4\<lparr>cssContent_v4 := Some red_css,
               successfulCDN := Some (cdnURLs chatgpt_v4 ! 2),
               fetchAttempts :=
                 [\<lparr>att_url = cdnURLs chatgpt_v4 ! 0, att_method = Fetch, att_success = False, att_error = Some NetworkError\<rparr>,
                  \<lparr>att_url = cdnURLs chatgpt_v4 ! 0, att_method = Xhr, att_success = False, att_error = Some NetworkError\<rparr>,
                  \<lparr>att_url = cdnURLs chatgpt_v4 ! 1, att_method = Fetch, att_success = False, att_error = Some NetworkError\<rparr>,
                  \<lparr>att_url = cdnURLs chatgpt_v4 ! 1, att_method = Xhr, att_success = False, att_error = Some NetworkError\<rparr>,
                  \<lparr>att_url = cdnURLs chatgpt_v4 ! 2, att_method = Fetch, att_success = True, att_error = None\<rparr>],
               storage_v4 := empty_storage\<lparr>items :=
                  [CACHE_KEY_PREFIX_v4 @ name_v4 chatgpt_v4 \<mapsto>
                    Stringified (JObj \<lparr>css_v4 = red_css, timestamp_v4 = 5, cdnURL = cdnURLs chatgpt_v4 ! 2\<rparr>)]\<rparr>\<rparr>)"
  by (simp add: v4_eval chatgpt_v4_def fresh_v4_def third_only_def red_css_def empty_storage_def)

lemma after_third:
  "after_third_v4 =
     fresh_v4\<lparr>cssContent_v4 := Some red_css,
              successfulCDN := Some (cdnURLs chatgpt_v4 ! 2),
              fetchAttempts :=
                [\<lparr>att_url = cdnURLs chatgpt_v4 ! 0, att_method = Fetch, att_success = False,
                    att_error = Some NetworkError\<rparr>,
                 \<lparr>att_url = cdnURLs chatgpt_v4 ! 0, att_method = Xhr, att_success = False,
                    att_error = Some NetworkError\<rparr>,
                 \<lparr>att_url = cdnURLs chatgpt_v4 ! 1, att_method = Fetch, att_success = False,
                    att_error = Some NetworkError\<rparr>,
                 \<lparr>att_url = cdnURLs chatgpt_v4 ! 1, att_method = Xhr, att_success = False,
                    att_error = Some NetworkError\<rparr>,
                 \<lparr>att_url = cdnURLs chatgpt_v4 ! 2, att_method = Fetch, att_success = True,
                    att_error = None\<rparr>],
              storage_v4 := empty_storage\<lparr>items :=
                 [CACHE_KEY_PREFIX_v4 @ name_v4 chatgpt_v4 \<mapsto>
                   Stringified (JObj \<lparr>css_v4 = red_css, timestamp_v4 = 5,
                                       cdnURL = cdnURLs chatgpt_v4 ! 2\<rparr>)]\<rparr>\<rparr>"
  by (simp add: after_third_v4_def first_cycle)

text \<open>
  C6, as stated, fails for the one operation of the script that clears the cache:
  \<open>app.refresh\<close> removes the cache entry and sets \<open>state.successfulCDN\<close> to \<open>null\<close>. After
  a cycle that succeeded from the third URL, the cycle that \<open>refresh\<close> starts sends its
  first request to the first configured URL.
\<close>

theorem refresh_forgets_promotion:
  "fst (fetchCSS_v4 chatgpt_v4 third_only 0 fresh_v4) = Some red_css \<and>
   att_url (last (fetchAttempts after_third_v4)) = cdnURLs chatgpt_v4 ! 2 \<and>
   successfulCDN after_third_v4 = Some (cdnURLs chatgpt_v4 ! 2) \<and>
   att_url (hd (fetchAttempts (snd (refresh chatgpt_v4 online_v4 9 False after_third_v4)))) =
     cdnURLs chatgpt_v4 ! 0 \<and>
   cdnURLs chatgpt_v4 ! 0 \<noteq> cdnURLs chatgpt_v4 ! 2"
  unfolding after_third_v4_def first_cycle
  by (simp add: v4_eval chatgpt_v4_def fresh_v4_def online_v4_def red_css_def empty_storage_def
        empty_page_def)

text \<open>
  C6, amended. If a fetch cycle of version 4.0 ends with a successful request to the
  third configured URL, and that URL is a non-empty string, then the next cycle that
  starts while the URL is still remembered in \<open>state.successfulCDN\<close> and finds no usable
  cache entry sends its first request to that URL. A cycle started by \<open>app.refresh\<close> on a
  readable storage sends its first request to the first configured URL.
\<close>

theorem promotion_unless_refreshed:
  "(fetchCSS_v4 site net now w = (Some css, w1) \<and> fetchAttempts w1 \<noteq> [] \<and>
    att_url (last (fetchAttempts w1)) = cdnURLs site ! 2 \<and> 2 < length (cdnURLs site) \<and>
    cdnURLs site ! 2 \<noteq> [] \<and>
    successfulCDN w2 = successfulCDN w1 \<and> \<not> isFetching w2 \<and>
    fst (getFromCache site now2 w2) = None
      \<longrightarrow> (\<exists>rest w3. fetchCSS_begin site now2 w2 =
                         (Awaiting (Attempt (cdnURLs site ! 2) Fetch # rest), w3))) \<and>
   (\<not> denied (storage_v4 wr) \<and> isEnabled wr \<and> \<not> isFetching wr \<and> cdnURLs sr = url # urls
      \<longrightarrow> fetchAttempts (snd (refresh sr netr nowr loading wr)) \<noteq> [] \<and>
          att_url (hd (fetchAttempts (snd (refresh sr netr nowr loading wr)))) = url)"
  using promotion [of site net now w css w1 w2 now2]
        refresh_first [of wr sr url urls netr nowr loading]
  by blast

theorem promotion_unless_refreshed_witness:
  "(fetchCSS_v4 chatgpt_v4 third_only 0 fresh_v4 = (Some red_css, after_third_v4) \<and>
    fetchAttempts after_third_v4 \<noteq> [] \<and>
    att_url (last (fetchAttempts after_third_v4)) = cdnURLs chatgpt_v4 ! 2 \<and>
    2 < length (cdnURLs chatgpt_v4) \<and> cdnURLs chatgpt_v4 ! 2 \<noteq> [] \<and>
    successfulCDN (after_third_v4\<lparr>storage_v4 := empty_storage\<rparr>) = successfulCDN after_third_v4 \<and>
    \<not> isFetching (after_third_v4\<lparr>storage_v4 := empty_storage\<rparr>) \<and>
    fst (getFromCache chatgpt_v4 9 (after_third_v4\<lparr>storage_v4 := empty_storage\<rparr>)) = None) \<and>
   (\<exists>rest w3. fetchCSS_begin chatgpt_v4 9 (after_third_v4\<lparr>storage_v4 := empty_storage\<rparr>) =
                 (Awaiting (Attempt (cdnURLs chatgpt_v4 ! 2) Fetch # rest), w3)) \<and>
   (\<not> denied (storage_v4 after_third_v4) \<and> isEnabled after_third_v4 \<and>
    \<not> isFetching after_third_v4 \<and>
    cdnURLs chatgpt_v4 = hd (cdnURLs chatgpt_v4) # tl (cdnURLs chatgpt_v4)) \<and>
   fetchAttempts (snd (refresh chatgpt_v4 online_v4 9 False after_third_v4)) \<noteq> [] \<and>
   att_url (hd (fetchAttempts (snd (refresh chatgpt_v4 online_v4 9 False after_third_v4)))) =
     hd (cdnURLs chatgpt_v4)"
proof -
  have a: "fetchCSS_v4 chatgpt_v4 third_only 0 fresh_v4 = (Some red_css, after_third_v4)"
    by (simp add: after_third first_cycle)
  have b: "fetchAttempts after_third_v4 \<noteq> []"
    "att_url (last (fetchAttempts after_third_v4)) = cdnURLs chatgpt_v4 ! 2"
    "\<not> denied (storage_v4 after_third_v4)" "isEnabled after_third_v4"
    "\<not> isFetching after_third_v4"
    "successfulCDN (after_third_v4\<lparr>storage_v4 := empty_storage\<rparr>) = successfulCDN after_third_v4"
    "\<not> isFetching (after_third_v4\<lparr>storage_v4 := empty_storage\<rparr>)"
    by (simp_all add: after_third fresh_v4_def empty_storage_def)
  have c: "2 < length (cdnURLs chatgpt_v4)" "cdnURLs chatgpt_v4 ! 2 \<noteq> []"
    "cdnURLs chatgpt_v4 = hd (cdnURLs chatgpt_v4) # tl (cdnURLs chatgpt_v4)"
    by (simp_all add: chatgpt_v4_def)
  have d: "fst (getFromCache chatgpt_v4 9 (after_third_v4\<lparr>storage_v4 := empty_storage\<rparr>)) = None"
    by (simp add: getFromCache_def getItem_def empty_storage_def)
  note T = promotion_unless_refreshed
    [where site = chatgpt_v4 and net = third_only and now = 0 and w = fresh_v4
       and css = red_css and ?w1.0 = after_third_v4
       and ?w2.0 = "after_third_v4\<lparr>storage_v4 := empty_storage\<rparr>" and ?now2.0 = 9
       and wr = after_third_v4 and sr = chatgpt_v4 and url = "hd (cdnURLs chatgpt_v4)"
       and urls = "tl (cdnURLs chatgpt_v4)" and netr = online_v4 and nowr = 9
       and loading = False]
  from T a b c d show ?thesis
    by blast
qed

section \<open>The injected element\<close>

lemma nodes_remove_where: "nodes (remove_where P d) = filter (\<lambda>e. \<not> P e) (nodes d)"
  by (cases "head d"; cases "body d") (simp_all add: nodes_def remove_where_def children_def)

lemma find_append:
  "find P (xs @ ys) = (case find P xs of None \<Rightarrow> find P ys | Some x \<Rightarrow> Some x)"
  by (induction xs) auto

lemma find_Some_mem: "find P xs = Some x \<Longrightarrow> x \<in> set xs \<and> P x"
  by (induction xs) (auto split: if_splits)

lemma find_None_notin: "find P xs = None \<Longrightarrow> P x \<Longrightarrow> x \<notin> set xs"
  by (induction xs) (auto split: if_splits)

lemma children_map: "f [] = [] \<Longrightarrow> children (map_option f p) = f (children p)"
  by (cases p) (simp_all add: children_def)

lemma nodes_remove_first:
  "nodes (remove_first i d) =
     (case getElementById d i of None \<Rightarrow> nodes d | Some e \<Rightarrow> remove1 e (nodes d))"
proof -
  let ?P = "\<lambda>e. elem_id e = i"
  show ?thesis
  proof (cases "find ?P (children (head d))")
    case (Some e)
    from find_Some_mem [OF Some] have "e \<in> set (children (head d))" by simp
    with Some show ?thesis
      by (simp add: remove_first_def getElementById_def nodes_def find_append children_map
            remove1_append)
  next
    case hn: None
    show ?thesis
    proof (cases "find ?P (children (body d))")
      case (Some e)
      from find_Some_mem [OF Some] have m: "e \<in> set (children (body d))" and "?P e" by simp_all
      with find_None_notin [OF hn] have "e \<notin> set (children (head d))" by blast
      with hn Some m show ?thesis
        by (simp add: remove_first_def getElementById_def nodes_def find_append children_map
              remove1_append)
    next
      case bn: None
      show ?thesis
      proof (cases "find ?P (root d)")
        case (Some e)
        from find_Some_mem [OF Some] have "?P e" by simp
        with find_None_notin [OF hn] find_None_notin [OF bn]
        have "e \<notin> set (children (head d))" "e \<notin> set (children (body d))" by blast+
        with hn bn Some show ?thesis
          by (simp add: remove_first_def getElementById_def nodes_def find_append remove1_append)
      next
        case None
        with hn bn show ?thesis
          by (simp add: remove_first_def getElementById_def nodes_def find_append)
      qed
    qed
  qed
qed

lemma remove_first_absent: "getElementById d i = None \<Longrightarrow> remove_first i d = d"
  by (auto simp: getElementById_def nodes_def find_append remove_first_def
           split: option.splits)

lemma applied_iff: "getElementById d i \<noteq> None \<longleftrightarrow> (\<exists>e \<in> set (nodes d). elem_id e = i)"
  by (auto simp: getElementById_def find_None_iff)

lemma nodes_remove_first_subset: "set (nodes (remove_first i d)) \<subseteq> set (nodes d)"
  using set_remove1_subset by (fastforce simp: nodes_remove_first split: option.splits)

lemma remove_where_fixed:
  assumes "\<forall>e \<in> set (nodes d). \<not> P e"
  shows "remove_where P d = d"
proof -
  from assms have "filter (\<lambda>e. \<not> P e) (children (head d)) = children (head d)"
    "filter (\<lambda>e. \<not> P e) (children (body d)) = children (body d)"
    "filter (\<lambda>e. \<not> P e) (root d) = root d"
    by (auto simp: nodes_def intro: filter_True)
  then show ?thesis
    by (cases "head d"; cases "body d") (simp_all add: remove_where_def children_def)
qed

lemma append_head_applied:
  "head d \<noteq> None \<Longrightarrow> getElementById (append_head e d) (elem_id e) \<noteq> None"
  unfolding applied_iff by (auto simp: nodes_def append_head_def children_def)

lemma nodes_append_head:
  "head d \<noteq> None \<Longrightarrow> set (nodes (append_head e d)) = insert e (set (nodes d))"
  by (auto simp: nodes_def append_head_def children_def)

lemma nodes_append_root: "set (nodes (append_root e d)) = insert e (set (nodes d))"
  by (auto simp: nodes_def append_root_def children_def)

lemma owned_iff:
  "owned_v3 site w \<longleftrightarrow>
     (\<forall>el \<in> set (nodes (page_v3 w)).
        elem_id el = styleID_v3 site \<longrightarrow> getAttribute el ''data-method'' \<noteq> None)"
  by (simp add: owned_v3_def list_all_iff)

lemma isApplied_v3_iff:
  "isApplied_v3 site w \<longleftrightarrow> (\<exists>e \<in> set (nodes (page_v3 w)). elem_id e = styleID_v3 site)"
  unfolding isApplied_v3_def applied_iff ..

lemma nodes_remove_v3:
  "set (nodes (page_v3 (remove_v3 site w))) \<subseteq> set (nodes (page_v3 w))"
  using nodes_remove_first_subset [of "styleID_v3 site" "page_v3 w"]
  by (auto simp: remove_v3_def Let_def nodes_remove_where)

lemma remove_v3_clears:
  assumes "owned_v3 site w"
  shows "\<not> isApplied_v3 site (remove_v3 site w)"
proof
  assume "isApplied_v3 site (remove_v3 site w)"
  then obtain el where el: "el \<in> set (nodes (page_v3 (remove_v3 site w)))"
    and i: "elem_id el = styleID_v3 site"
    by (auto simp: isApplied_v3_iff)
  from el nodes_remove_v3 have "el \<in> set (nodes (page_v3 w))" by blast
  with assms i have "getAttribute el ''data-method'' \<noteq> None" by (simp add: owned_iff)
  with el i show False
    by (simp add: remove_v3_def Let_def nodes_remove_where)
qed

lemma remove_v3_keeps_absent:
  "\<not> isApplied_v3 site w \<Longrightarrow> \<not> isApplied_v3 site (remove_v3 site w)"
  using nodes_remove_v3 [of site w] by (auto simp: isApplied_v3_iff)

lemma remove_v3_owned: "owned_v3 site w \<Longrightarrow> owned_v3 site (remove_v3 site w)"
  using nodes_remove_v3 [of site w] by (auto simp: owned_iff)

lemma remove_v3_twice:
  assumes "owned_v3 site w"
  shows "remove_v3 site (remove_v3 site w) = remove_v3 site w"
proof -
  let ?w = "remove_v3 site w"
  let ?P = "\<lambda>el. getAttribute el ''data-method'' \<noteq> None \<and>
                  (elem_id el = styleID_v3 site \<or>
                   getAttribute el ''data-site'' = Some (currentDomain_v3 w))"
  from remove_v3_clears [OF assms] have "getElementById (page_v3 ?w) (styleID_v3 site) = None"
    by (simp add: isApplied_v3_def)
  then have a: "remove_first (styleID_v3 site) (page_v3 ?w) = page_v3 ?w"
    by (rule remove_first_absent)
  have "\<forall>e \<in> set (nodes (page_v3 ?w)). \<not> ?P e"
    by (simp add: remove_v3_def Let_def nodes_remove_where)
  then have b: "remove_where ?P (page_v3 ?w) = page_v3 ?w"
    by (rule remove_where_fixed)
  have c: "currentDomain_v3 ?w = currentDomain_v3 w"
    by (simp add: remove_v3_def Let_def)
  show ?thesis
    unfolding remove_v3_def [of site ?w] Let_def a c b
    by (simp add: remove_v3_def Let_def)
qed

lemma owned_page: "page_v3 w' = page_v3 w \<Longrightarrow> owned_v3 site w' = owned_v3 site w"
  by (simp add: owned_v3_def)

lemma applied_page: "page_v3 w' = page_v3 w \<Longrightarrow> isApplied_v3 site w' = isApplied_v3 site w"
  by (simp add: isApplied_v3_def)

lemma owned_append:
  assumes "owned_v3 site w" and "head (page_v3 w) \<noteq> None"
    and "getAttribute e ''data-method'' \<noteq> None"
    and "page_v3 w' = append_head e (page_v3 w)"
  shows "owned_v3 site w'"
  using assms by (auto simp: owned_iff nodes_append_head)

lemma applied_append:
  assumes "head (page_v3 w) \<noteq> None" and "elem_id e = styleID_v3 site"
    and "page_v3 w' = append_head e (page_v3 w)"
  shows "isApplied_v3 site w'"
  using assms by (auto simp: isApplied_v3_iff nodes_append_head)

lemma blob_result:
  assumes "injectViaBlob site ev w = (b, w')"
  shows "(b \<longrightarrow> isApplied_v3 site w') \<and> (owned_v3 site w \<longrightarrow> owned_v3 site w')"
proof (cases "head (page_v3 w) = None")
  case True
  with assms show ?thesis by (simp add: injectViaBlob_def)
next
  case False
  let ?link = "\<lparr>tagName = LINK, elem_id = styleID_v3 site,
                 attributes = [(''rel'', ''stylesheet''), (''type'', ''text/css''),
                               (''data-method'', ''blob''), (''data-cdn'', cdnStatus w)],
                 href = ''blob:'' @ object_url ev, textContent = []\<rparr>"
  have m: "getAttribute ?link ''data-method'' \<noteq> None" "elem_id ?link = styleID_v3 site"
    by (simp_all add: getAttribute_def)
  from assms False
  have "w' = w \<and> \<not> b \<or> page_v3 w' = append_head ?link (page_v3 w)"
    by (auto simp: injectViaBlob_def Let_def split: load_event.splits if_splits)
  with False m owned_append [of site w ?link w'] applied_append [of w ?link site w']
  show ?thesis by blast
qed

lemma style_result:
  assumes "injectViaStyle site w = (b, w')"
  shows "(b \<longrightarrow> isApplied_v3 site w') \<and> (owned_v3 site w \<longrightarrow> owned_v3 site w')"
proof (cases "head (page_v3 w) = None")
  case True
  with assms show ?thesis by (simp add: injectViaStyle_def)
next
  case False
  let ?style = "\<lparr>tagName = STYLE, elem_id = styleID_v3 site,
                  attributes = [(''type'', ''text/css''), (''data-method'', ''inline''),
                                (''data-cdn'', cdnStatus w)],
                  href = [],
                  textContent = (case cssContent_v3 w of None \<Rightarrow> [] | Some css \<Rightarrow> css)\<rparr>"
  have m: "getAttribute ?style ''data-method'' \<noteq> None" "elem_id ?style = styleID_v3 site"
    by (simp_all add: getAttribute_def)
  from assms False have "page_v3 w' = append_head ?style (page_v3 w)"
    by (auto simp: injectViaStyle_def Let_def)
  with False m owned_append [of site w ?style w'] applied_append [of w ?style site w']
  show ?thesis by blast
qed

lemma external_result:
  assumes "injectViaExternalLink site ev w = (b, w')"
  shows "(b \<longrightarrow> isApplied_v3 site w') \<and> (owned_v3 site w \<longrightarrow> owned_v3 site w')"
proof (cases "head (page_v3 w) = None")
  case True
  with assms show ?thesis by (simp add: injectViaExternalLink_def)
next
  case False
  let ?link = "\<lparr>tagName = LINK, elem_id = styleID_v3 site,
                 attributes = [(''rel'', ''stylesheet''), (''type'', ''text/css''),
                               (''data-method'', ''external''),
                               (''data-cdn'', ''jsdelivr_direct''),
                               (''crossorigin'', ''anonymous'')],
                 href = styleURL_v3 site, textContent = []\<rparr>"
  have m: "getAttribute ?link ''data-method'' \<noteq> None" "elem_id ?link = styleID_v3 site"
    by (simp_all add: getAttribute_def)
  from assms False
  have "w' = w \<and> \<not> b \<or> page_v3 w' = append_head ?link (page_v3 w)"
    by (auto simp: injectViaExternalLink_def Let_def split: load_event.splits if_splits)
  with False m owned_append [of site w ?link w'] applied_append [of w ?link site w']
  show ?thesis by blast
qed

lemma inject_methods_result:
  assumes "inject_methods site ev w = (res, w')"
  shows "(res = Inr True \<longrightarrow> isApplied_v3 site w') \<and> (owned_v3 site w \<longrightarrow> owned_v3 site w')"
proof -
  obtain b1 w1 where i1: "injectViaBlob site ev w = (b1, w1)"
    by (cases "injectViaBlob site ev w")
  obtain b2 w2 where i2: "injectViaStyle site w1 = (b2, w2)"
    by (cases "injectViaStyle site w1")
  obtain b3 w3 where i3: "injectViaExternalLink site ev w2 = (b3, w3)"
    by (cases "injectViaExternalLink site ev w2")
  note r1 = blob_result [OF i1] and r2 = style_result [OF i2] and r3 = external_result [OF i3]
  show ?thesis
  proof (cases b1)
    case True
    with assms i1 have "page_v3 w' = page_v3 w1" "res = Inr True"
      by (auto simp: inject_methods_def)
    with r1 True applied_page [of w' w1 site] owned_page [of w' w1 site] show ?thesis by simp
  next
    case f1: False
    show ?thesis
    proof (cases b2)
      case True
      with assms i1 i2 f1 have "page_v3 w' = page_v3 w2" "res = Inr True"
        by (auto simp: inject_methods_def)
      with r1 r2 True applied_page [of w' w2 site] owned_page [of w' w2 site] show ?thesis by simp
    next
      case f2: False
      show ?thesis
      proof (cases b3)
        case True
        with assms i1 i2 i3 f1 f2 have "page_v3 w' = page_v3 w3" "res = Inr True"
          by (auto simp: inject_methods_def)
        with r1 r2 r3 True applied_page [of w' w3 site] owned_page [of w' w3 site]
        show ?thesis by simp
      next
        case False
        with assms i1 i2 i3 f1 f2 have "w' = w3" "res = Inl InjectionFailed"
          by (auto simp: inject_methods_def)
        with r1 r2 r3 show ?thesis by simp
      qed
    qed
  qed
qed

lemma setValue_page: "page_v3 (snd (setValue key val w)) = page_v3 w"
  by (simp add: setValue_def safeCall_def split: option.splits sum.splits)

lemma keep_css_page: "page_v3 (keep_css site later css status w) = page_v3 w"
  by (simp add: keep_css_def Let_def setCachedCSS_v3_def setValue_page split: option.splits)

lemma berry_page: "page_v3 (snd (fetchForBerryBrowser site net w)) = page_v3 w"
  by (simp add: fetchForBerryBrowser_def Let_def split: option.splits response.splits)

lemma standard_page: "page_v3 (snd (fetch_standard site net later w)) = page_v3 w"
  by (simp add: fetch_standard_def keep_css_page split: sum.splits)

lemma fetch_berry_page: "page_v3 (snd (fetch_berry site net later w)) = page_v3 w"
  using berry_page [of site net w]
  by (auto simp: fetch_berry_def keep_css_page standard_page split: sum.splits prod.splits)

lemma fetchExternalCSS_page: "page_v3 (snd (fetchExternalCSS site net now later w)) = page_v3 w"
  by (simp add: fetchExternalCSS_def Let_def keep_css_page fetch_berry_page split: sum.splits)

lemma apply_body_result:
  assumes "apply_body_v3 site net ev now later w = (res, w')"
  shows "(res = Inr True \<longrightarrow> isApplied_v3 site w') \<and> (owned_v3 site w \<longrightarrow> owned_v3 site w')"
proof -
  let ?f = "if \<not> truthy (cssContent_v3 w) then fetchExternalCSS site net now later w
            else (Inr [], w)"
  obtain r1 w1 where f: "?f = (r1, w1)" by (cases ?f)
  then have p: "page_v3 w1 = page_v3 w"
    using fetchExternalCSS_page [of site net now later w] by (auto split: if_splits)
  show ?thesis
  proof (cases r1)
    case (Inl e)
    with assms f have "res = Inl e" "w' = w1" by (simp_all add: apply_body_v3_def)
    with p owned_page [of w1 w site] show ?thesis by simp
  next
    case (Inr css)
    show ?thesis
    proof (cases "\<not> truthy (cssContent_v3 w1) \<or> length (trim (the (cssContent_v3 w1))) = 0")
      case True
      with assms f Inr have "res = Inl EmptyContent" "w' = w1" by (simp_all add: apply_body_v3_def)
      with p owned_page [of w1 w site] show ?thesis by simp
    next
      case False
      with assms f Inr have "inject_methods site ev w1 = (res, w')"
        by (simp add: apply_body_v3_def)
      from inject_methods_result [OF this] p owned_page [of w1 w site] show ?thesis by simp
    qed
  qed
qed

lemma apply_v3_result:
  "(fst (apply_v3 site net ev now later w) \<longrightarrow>
      isApplied_v3 site (snd (apply_v3 site net ev now later w))) \<and>
   (owned_v3 site w \<longrightarrow> owned_v3 site (snd (apply_v3 site net ev now later w)))"
proof (cases "\<not> truthy_val (getCurrentSiteEnabled site w) \<or> isLoading w \<or>
              now - lastApplyTime w < 500")
  case True
  then show ?thesis by (auto simp: apply_v3_def)
next
  case False
  let ?w0 = "(remove_v3 site (w\<lparr>lastApplyTime := now\<rparr>))\<lparr>isLoading := True\<rparr>"
  obtain res w1 where b: "apply_body_v3 site net ev now later ?w0 = (res, w1)"
    by (cases "apply_body_v3 site net ev now later ?w0")
  have o: "owned_v3 site w \<longrightarrow> owned_v3 site ?w0"
    using remove_v3_owned [of site "w\<lparr>lastApplyTime := now\<rparr>"]
          owned_page [of "w\<lparr>lastApplyTime := now\<rparr>" w site]
          owned_page [of ?w0 "remove_v3 site (w\<lparr>lastApplyTime := now\<rparr>)" site]
    by simp
  from apply_body_result [OF b] o owned_page [of "w1\<lparr>isLoading := False\<rparr>" w1 site]
  show ?thesis
    using False b by (cases res) (auto simp: apply_v3_def)
qed

lemma isApplied_v4_iff:
  "isApplied_v4 site w \<longleftrightarrow> (\<exists>e \<in> set (nodes (page_v4 w)). elem_id e = styleID_v4 site)"
  unfolding isApplied_v4_def applied_iff ..

lemma filter_remove_found:
  "length (filter P xs) \<le> 1 \<Longrightarrow> find P xs = Some e \<Longrightarrow> filter P (remove1 e xs) = []"
proof (induction xs)
  case Nil
  then show ?case by simp
next
  case (Cons x xs)
  show ?case
  proof (cases "P x")
    case True
    with Cons.prems have "e = x" "filter P xs = []" by simp_all
    then show ?thesis by simp
  next
    case False
    with Cons.prems have "length (filter P xs) \<le> 1" "find P xs = Some e" by simp_all
    from Cons.IH [OF this] find_Some_mem [OF \<open>find P xs = Some e\<close>] False show ?thesis
      by auto
  qed
qed

lemma remove_v4_clears:
  assumes "single_v4 site w"
  shows "\<not> isApplied_v4 site (remove_v4 site w)"
proof (cases "getElementById (page_v4 w) (styleID_v4 site)")
  case None
  then show ?thesis
    by (simp add: isApplied_v4_def remove_v4_def remove_first_absent)
next
  case (Some e)
  with assms
  have "filter (\<lambda>el. elem_id el = styleID_v4 site) (remove1 e (nodes (page_v4 w))) = []"
    by (intro filter_remove_found) (simp_all add: single_v4_def getElementById_def)
  with Some have "filter (\<lambda>el. elem_id el = styleID_v4 site) (nodes (page_v4 (remove_v4 site w))) = []"
    by (simp add: remove_v4_def nodes_remove_first)
  then show ?thesis
    by (auto simp: isApplied_v4_iff filter_empty_conv)
qed

lemma remove_v4_absent: "\<not> isApplied_v4 site w \<Longrightarrow> remove_v4 site w = w"
  by (simp add: isApplied_v4_def remove_v4_def remove_first_absent)

lemma remove_v4_twice:
  "single_v4 site w \<Longrightarrow> remove_v4 site (remove_v4 site w) = remove_v4 site w"
  using remove_v4_clears remove_v4_absent by blast

lemma remove_v4_single: "single_v4 site w \<Longrightarrow> single_v4 site (remove_v4 site w)"
proof -
  assume s: "single_v4 site w"
  from remove_v4_clears [OF s]
  have "filter (\<lambda>el. elem_id el = styleID_v4 site) (nodes (page_v4 (remove_v4 site w))) = []"
    by (auto simp: isApplied_v4_iff filter_empty_conv)
  then show ?thesis by (simp add: single_v4_def)
qed

lemma nodes_append_head_list:
  "head d \<noteq> None \<Longrightarrow>
   filter P (nodes (append_head e d)) =
     filter P (children (head d)) @ filter P [e] @ filter P (children (body d)) @ filter P (root d)"
  by (auto simp: nodes_def append_head_def children_def)

lemma nodes_append_root_list: "filter P (nodes (append_root e d)) = filter P (nodes d) @ filter P [e]"
  by (simp add: nodes_def append_root_def)

lemma inject_result:
  "(fst (inject site css w) \<longrightarrow> isApplied_v4 site (snd (inject site css w))) \<and>
   (single_v4 site w \<longrightarrow> single_v4 site (snd (inject site css w)))"
proof (cases "css = [] \<or> length (trim css) = 0")
  case True
  then show ?thesis by (auto simp: inject_def)
next
  case False
  let ?w1 = "remove_v4 site w"
  let ?style = "\<lparr>tagName = STYLE, elem_id = styleID_v4 site,
                  attributes = [(''type'', ''text/css''),
                                (''data-source'', ''berry-styler-cdn''),
                                (''data-cdn'', if truthy (successfulCDN ?w1)
                                               then the (successfulCDN ?w1) else ''cached'')],
                  href = [], textContent = css\<rparr>"
  let ?d = "if head (page_v4 ?w1) \<noteq> None then append_head ?style (page_v4 ?w1)
            else append_root ?style (page_v4 ?w1)"
  from False have i: "inject site css w = (True, ?w1\<lparr>page_v4 := ?d\<rparr>)"
    by (simp add: inject_def Let_def)
  have a: "isApplied_v4 site (?w1\<lparr>page_v4 := ?d\<rparr>)"
    by (auto simp: isApplied_v4_iff nodes_append_head nodes_append_root)
  have s: "single_v4 site w \<longrightarrow> single_v4 site (?w1\<lparr>page_v4 := ?d\<rparr>)"
  proof
    assume "single_v4 site w"
    from remove_v4_clears [OF this]
    have e: "filter (\<lambda>el. elem_id el = styleID_v4 site) (nodes (page_v4 ?w1)) = []"
      by (auto simp: isApplied_v4_iff filter_empty_conv)
    then have "filter (\<lambda>el. elem_id el = styleID_v4 site) (children (head (page_v4 ?w1))) = []"
      "filter (\<lambda>el. elem_id el = styleID_v4 site) (children (body (page_v4 ?w1))) = []"
      "filter (\<lambda>el. elem_id el = styleID_v4 site) (root (page_v4 ?w1)) = []"
      by (simp_all add: nodes_def)
    with e show "single_v4 site (?w1\<lparr>page_v4 := ?d\<rparr>)"
      by (simp add: single_v4_def nodes_append_head_list nodes_append_root_list)
  qed
  from i a s show ?thesis by simp
qed

lemma fresh_invariants: "owned_v3 site fresh_v3" "single_v4 sitec fresh_v4"
  by (simp_all add: owned_v3_def single_v4_def fresh_v3_def fresh_v4_def empty_page_def nodes_def
        children_def)

lemmas v3_eval =
  apply_v3_def getCurrentSiteEnabled_def getValue_def setValue_def safeCall_def getItem_def
  setItem_def JSON_parse_def apply_body_v3_def remove_v3_def fetchExternalCSS_def
  getCachedCSS_v3_def setCachedCSS_v3_def fetch_berry_def fetch_standard_def fetchDirect_def
  fetchViaGM_def keep_css_def inject_methods_def injectViaBlob_def injectViaStyle_def
  injectViaExternalLink_def remove_first_def remove_where_def children_def append_head_def
  ok_def trim_def is_space_def Let_def

lemma apply_fresh: "fst (apply_v3 chatgpt_v3 always_css all_loaded 1000 1001 fresh_v3)"
  by (simp add: v3_eval fresh_v3_def empty_storage_def always_css_def red_css_def all_loaded_def
        empty_page_def)

lemma inject_fresh: "fst (inject chatgpt_v4 red_css fresh_v4)"
  by (simp add: inject_def red_css_def trim_def is_space_def Let_def)

text \<open>
  C7. After an \<open>apply\<close> of version 3.0 that returned \<open>true\<close>, and after an \<open>inject\<close> of
  version 4.0 that returned \<open>true\<close>, an element with the profile's id is in the document.
  After \<open>remove\<close> there is none, and a second \<open>remove\<close> changes nothing, on every document
  that satisfies the injector's invariant (version 3.0: every element with the id has a
  \<open>data-method\<close> attribute; version 4.0: at most one element has the id). The invariant
  holds on a page without such elements and is kept by \<open>apply\<close>, \<open>inject\<close> and \<open>remove\<close>.
  A \<open>remove\<close> while nothing is applied leaves nothing applied. \<open>remove\<close> has no failing
  step: it is a total function of the state.
\<close>

theorem applied_after_apply_absent_after_remove:
  "(fst (apply_v3 sb net ev now later wp) \<longrightarrow>
      isApplied_v3 sb (snd (apply_v3 sb net ev now later wp))) \<and>
   (owned_v3 sb wo \<longrightarrow>
      \<not> isApplied_v3 sb (remove_v3 sb wo) \<and>
      remove_v3 sb (remove_v3 sb wo) = remove_v3 sb wo \<and>
      owned_v3 sb (remove_v3 sb wo) \<and>
      owned_v3 sb (snd (apply_v3 sb net ev now later wo))) \<and>
   (\<not> isApplied_v3 sb wn \<longrightarrow> \<not> isApplied_v3 sb (remove_v3 sb wn)) \<and>
   (fst (inject sc css vp) \<longrightarrow> isApplied_v4 sc (snd (inject sc css vp))) \<and>
   (single_v4 sc vo \<longrightarrow>
      \<not> isApplied_v4 sc (remove_v4 sc vo) \<and>
      remove_v4 sc (remove_v4 sc vo) = remove_v4 sc vo \<and>
      single_v4 sc (remove_v4 sc vo) \<and>
      single_v4 sc (snd (inject sc css vo))) \<and>
   (\<not> isApplied_v4 sc vn \<longrightarrow> remove_v4 sc vn = vn)"
  using apply_v3_result [of sb net ev now later wp] apply_v3_result [of sb net ev now later wo]
        remove_v3_clears [of sb wo] remove_v3_twice [of sb wo] remove_v3_owned [of sb wo]
        remove_v3_keeps_absent [of sb wn]
        inject_result [of sc css vp] inject_result [of sc css vo]
        remove_v4_clears [of sc vo] remove_v4_twice [of sc vo] remove_v4_single [of sc vo]
        remove_v4_absent [of sc vn]
  by blast

theorem applied_after_apply_absent_after_remove_witness:
  "fst (apply_v3 chatgpt_v3 always_css all_loaded 1000 1001 fresh_v3) \<and>
   isApplied_v3 chatgpt_v3 applied_v3 \<and>
   owned_v3 chatgpt_v3 applied_v3 \<and>
   \<not> isApplied_v3 chatgpt_v3 (remove_v3 chatgpt_v3 applied_v3) \<and>
   remove_v3 chatgpt_v3 (remove_v3 chatgpt_v3 applied_v3) = remove_v3 chatgpt_v3 applied_v3 \<and>
   \<not> isApplied_v3 chatgpt_v3 fresh_v3 \<and>
   \<not> isApplied_v3 chatgpt_v3 (remove_v3 chatgpt_v3 fresh_v3) \<and>
   fst (inject chatgpt_v4 red_css fresh_v4) \<and>
   isApplied_v4 chatgpt_v4 applied_v4 \<and>
   single_v4 chatgpt_v4 applied_v4 \<and>
   \<not> isApplied_v4 chatgpt_v4 (remove_v4 chatgpt_v4 applied_v4) \<and>
   remove_v4 chatgpt_v4 (remove_v4 chatgpt_v4 applied_v4) = remove_v4 chatgpt_v4 applied_v4 \<and>
   \<not> isApplied_v4 chatgpt_v4 fresh_v4 \<and>
   remove_v4 chatgpt_v4 fresh_v4 = fresh_v4"
proof -
  note T = applied_after_apply_absent_after_remove
    [where sb = chatgpt_v3 and net = always_css and ev = all_loaded and now = 1000
       and later = 1001 and wp = fresh_v3 and wo = applied_v3 and wn = fresh_v3
       and sc = chatgpt_v4 and css = red_css and vp = fresh_v4 and vo = applied_v4
       and vn = fresh_v4]
  note U = applied_after_apply_absent_after_remove
    [where sb = chatgpt_v3 and net = always_css and ev = all_loaded and now = 1000
       and later = 1001 and wo = fresh_v3 and sc = chatgpt_v4 and css = red_css
       and vo = fresh_v4]
  have n: "\<not> isApplied_v3 chatgpt_v3 fresh_v3" "\<not> isApplied_v4 chatgpt_v4 fresh_v4"
    by (simp_all add: isApplied_v3_def isApplied_v4_def getElementById_def nodes_def children_def
          fresh_v3_def fresh_v4_def empty_page_def)
  from U fresh_invariants have o: "owned_v3 chatgpt_v3 applied_v3" "single_v4 chatgpt_v4 applied_v4"
    unfolding applied_v3_def applied_v4_def by blast+
  from T apply_fresh inject_fresh n o show ?thesis
    unfolding applied_v3_def applied_v4_def by blast
qed

section \<open>Exhaustion of all sources\<close>































end
